theory Spec2Isabelle
  imports Main "HOL-Library.Word"
begin

unbundle bit_operations_syntax

section \<open>Octets, handles and the PDU codec\<close>

type_synonym u8 = "8 word"
type_synonym u16 = "16 word"

text \<open>
  Modelled from the spec: \<^verbatim>\<open>bluetoe/bits.hpp\<close> is not among the sources. The spec fixes
  the wire layout as little-endian throughout; handles and 16 bit values take two octets.
  A pointer into the input PDU is the list of the octets from that position on
  (\<^verbatim>\<open>&input[ 1 ]\<close> is \<open>drop 1 input\<close>).
\<close>

definition read_16bit :: "u8 list \<Rightarrow> u16" where
  "read_16bit p = ucast (p ! 0) OR push_bit 8 (ucast (p ! 1))"

definition read_handle :: "u8 list \<Rightarrow> u16" where
  "read_handle p = read_16bit p"

definition write_16bit :: "u16 \<Rightarrow> u8 list" where
  "write_16bit v = [ucast (v AND 0xff), ucast (drop_bit 8 v)]"

definition write_handle :: "u16 \<Rightarrow> u8 list" where
  "write_handle h = write_16bit h"

section \<open>Protocol codes\<close>

text \<open>
  Modelled from the spec: \<^verbatim>\<open>bluetoe/codes.hpp\<close> is not among the sources. The opcodes are
  those of the dispatch table and of the wire layout, the error codes those of the error
  taxonomy. \<open>bits\<close> is the cast of an enumerator to its octet.
\<close>

definition error_response_opcode :: u8 where "error_response_opcode = 0x01"
definition exchange_mtu_request :: u8 where "exchange_mtu_request = 0x02"
definition exchange_mtu_response :: u8 where "exchange_mtu_response = 0x03"
definition find_information_request :: u8 where "find_information_request = 0x04"
definition find_information_response :: u8 where "find_information_response = 0x05"
definition find_by_type_value_request :: u8 where "find_by_type_value_request = 0x06"
definition find_by_type_value_response :: u8 where "find_by_type_value_response = 0x07"
definition read_by_type_request :: u8 where "read_by_type_request = 0x08"
definition read_by_type_response :: u8 where "read_by_type_response = 0x09"
definition read_request :: u8 where "read_request = 0x0A"
definition read_response :: u8 where "read_response = 0x0B"
definition read_blob_request :: u8 where "read_blob_request = 0x0C"
definition read_blob_response :: u8 where "read_blob_response = 0x0D"
definition read_by_group_type_request :: u8 where "read_by_group_type_request = 0x10"
definition read_by_group_type_response :: u8 where "read_by_group_type_response = 0x11"
definition write_request :: u8 where "write_request = 0x12"
definition write_response :: u8 where "write_response = 0x13"

datatype att_error_codes =
    invalid_handle
  | read_not_permitted
  | write_not_permitted
  | invalid_pdu
  | request_not_supported
  | invalid_offset
  | attribute_not_found
  | invalid_attribute_value_length
  | unsupported_group_type

fun bits :: "att_error_codes \<Rightarrow> u8" where
  "bits invalid_handle = 0x01"
| "bits read_not_permitted = 0x02"
| "bits write_not_permitted = 0x03"
| "bits invalid_pdu = 0x04"
| "bits request_not_supported = 0x06"
| "bits invalid_offset = 0x07"
| "bits attribute_not_found = 0x0A"
| "bits invalid_attribute_value_length = 0x0D"
| "bits unsupported_group_type = 0x10"

definition default_att_mtu_size :: nat where "default_att_mtu_size = 23"

definition primary_service :: u16 where "primary_service = 0x2800"
definition characteristic :: u16 where "characteristic = 0x2803"

text \<open>
  Modelled from the spec: the sentinel of \<^verbatim>\<open>gatt_uuids::internal_128bit_uuid\<close> ("the real
  UUID is 128-bit and is embedded in the preceding Characteristic Declaration"). The spec
  does not give its value; no theorem below depends on it beyond its being one fixed
  16 bit value.
\<close>

definition internal_128bit_uuid :: u16 where "internal_128bit_uuid = 0x0001"

section \<open>The attribute access contract\<close>

text \<open>
  Modelled from the spec: \<^verbatim>\<open>bluetoe/service.hpp\<close> (the attribute, its access arguments and
  results, the services) is not among the sources. An attribute has a 16 bit UUID and one
  operation \<^verbatim>\<open>access( args, handle )\<close>. A read is given the size of the buffer it may
  fill and an offset; what it stores is returned as a list, whose length is
  \<^verbatim>\<open>read.buffer_size\<close> after the call. Writes and comparisons are given the octets
  \<^verbatim>\<open>[begin, end)\<close>. The effect of a write on the application's storage is behind this
  contract and not part of the model: every theorem below is about one request. The
  results of an access carry the prefix \<open>rc_\<close> and the arguments the prefix \<open>args_\<close>, to
  keep them apart from the error codes of the same names.
\<close>

datatype attribute_access_result =
    rc_success
  | rc_read_truncated
  | rc_invalid_offset
  | rc_write_overflow
  | rc_write_not_permitted
  | rc_read_not_permitted
  | rc_value_equal
  | rc_value_not_equal

datatype attribute_access_arguments =
    args_read nat nat
  | args_write "u8 list"
  | args_compare_value "u8 list"

record attribute =
  uuid :: u16
  access :: "attribute_access_arguments \<Rightarrow> u16 \<Rightarrow> attribute_access_result \<times> u8 list"

text \<open>
  A service is known to the server by its attributes (\<^verbatim>\<open>Service::number_of_attributes\<close> is
  their number), by \<^verbatim>\<open>Service::uuid::is_128bit\<close>, by the attribute that
  \<^verbatim>\<open>Service::characteristic_declaration_attribute()\<close> returns, and by
  \<^verbatim>\<open>Service::read_primary_service_response( output, end, index, is_128bit )\<close>, taken here as
  a function of the room \<^verbatim>\<open>end - output\<close>, the index and the flag that returns the octets
  it appends (the returned pointer is \<^verbatim>\<open>output\<close> advanced by their number).
\<close>

record service =
  attributes :: "attribute list"
  is_128bit :: bool
  characteristic_declaration_attribute :: attribute
  read_primary_service_response :: "nat \<Rightarrow> u16 \<Rightarrow> bool \<Rightarrow> u8 list"

text \<open>
  The server is its list of services (the template parameter pack). \<^verbatim>\<open>details::uuid_filter\<close>
  of \<^verbatim>\<open>bluetoe/filter.hpp\<close> is not among the sources either: it is a parameter, applied to
  the octets of the requested type, the flag \<^verbatim>\<open>in_size == 5 + 16\<close>, the handle and the
  attribute.
\<close>

record server =
  services :: "service list"
  uuid_filter :: "u8 list \<Rightarrow> bool \<Rightarrow> u16 \<Rightarrow> attribute \<Rightarrow> bool"

text \<open>
  Modelled from the spec: \<^verbatim>\<open>details::sum_by\<close> and \<^verbatim>\<open>details::attribute_at_list\<close>, which
  give \<^verbatim>\<open>number_of_attributes\<close> and \<^verbatim>\<open>attribute_at\<close>, are not among the sources. The
  database is the concatenation of the services' attributes in the order of declaration;
  the attribute of handle \<open>h\<close> has the index \<open>h - 1\<close>.
\<close>

definition all_attributes_list :: "server \<Rightarrow> attribute list" where
  "all_attributes_list srv = concat (map attributes (services srv))"

definition number_of_attributes :: "server \<Rightarrow> nat" where
  "number_of_attributes srv = length (all_attributes_list srv)"

text \<open>\<^verbatim>\<open>attribute_at( index )\<close>; every call but one is guarded by \<open>index < number_of_attributes\<close>.\<close>

definition attribute_at :: "server \<Rightarrow> nat \<Rightarrow> attribute" where
  "attribute_at srv index = all_attributes_list srv ! index"

section \<open>Connection data\<close>

record connection_data =
  server_mtu :: u16
  client_mtu :: u16

definition new_connection_data :: "u16 \<Rightarrow> connection_data option" where
  "new_connection_data mtu =
     (if unat mtu \<ge> default_att_mtu_size
      then Some \<lparr> server_mtu = mtu, client_mtu = of_nat default_att_mtu_size \<rparr>
      else None)"

definition negotiated_mtu :: "connection_data \<Rightarrow> u16" where
  "negotiated_mtu c = min (server_mtu c) (client_mtu c)"

text \<open>
  The setter \<^verbatim>\<open>client_mtu( mtu )\<close> asserts \<open>mtu \<ge> 23\<close>; a failed assertion is \<open>None\<close>.
\<close>

definition set_client_mtu :: "connection_data \<Rightarrow> u16 \<Rightarrow> connection_data option" where
  "set_client_mtu c mtu =
     (if unat mtu \<ge> default_att_mtu_size then Some (c\<lparr> client_mtu := mtu \<rparr>) else None)"

section \<open>Error responses and the checks on sizes and handles\<close>

text \<open>
  A handler's result is the block \<^verbatim>\<open>output[ 0 .. out_size )\<close> as it stands on return, so
  \<^verbatim>\<open>out_size\<close> on return is the length of the list. \<^verbatim>\<open>error_response\<close> returns false
  after it has written the response (or set \<^verbatim>\<open>out_size = 0\<close>).
\<close>

definition error_response :: "u8 \<Rightarrow> att_error_codes \<Rightarrow> u16 \<Rightarrow> nat \<Rightarrow> u8 list" where
  "error_response opcode error_code handle out_size =
     (if out_size \<ge> 5
      then [error_response_opcode, opcode, ucast (handle AND 0xff), ucast (drop_bit 8 handle),
            bits error_code]
      else [])"

definition error_response_no_handle :: "u8 \<Rightarrow> att_error_codes \<Rightarrow> nat \<Rightarrow> u8 list" where
  "error_response_no_handle opcode error_code out_size =
     error_response opcode error_code 0 out_size"

text \<open>
  The checks return the error response they generated (\<open>Inl\<close>, the source's false), or the
  handles they read (\<open>Inr\<close>, the source's true).
\<close>

definition check_size_and_handle_range ::
  "nat \<Rightarrow> nat \<Rightarrow> server \<Rightarrow> u8 list \<Rightarrow> nat \<Rightarrow> u8 list + (u16 \<times> u16)" where
  "check_size_and_handle_range A B srv input out_size =
     (if length input \<noteq> A \<and> length input \<noteq> B
      then Inl (error_response_no_handle (input ! 0) invalid_pdu out_size)
      else
        let starting_handle = read_handle (drop 1 input);
            ending_handle = read_handle (drop 3 input)
        in if starting_handle = 0 \<or> starting_handle > ending_handle
           then Inl (error_response (input ! 0) invalid_handle starting_handle out_size)
           else if unat starting_handle > number_of_attributes srv
           then Inl (error_response (input ! 0) attribute_not_found starting_handle out_size)
           else Inr (starting_handle, ending_handle))"

definition check_handle :: "server \<Rightarrow> u8 list \<Rightarrow> nat \<Rightarrow> u8 list + u16" where
  "check_handle srv input out_size =
     (let handle = read_handle (drop 1 input)
      in if handle = 0
         then Inl (error_response (input ! 0) invalid_handle handle out_size)
         else if unat handle > number_of_attributes srv
         then Inl (error_response (input ! 0) attribute_not_found handle out_size)
         else Inr handle)"

definition check_size_and_handle :: "nat \<Rightarrow> nat \<Rightarrow> server \<Rightarrow> u8 list \<Rightarrow> nat \<Rightarrow> u8 list + u16" where
  "check_size_and_handle A B srv input out_size =
     (if length input \<noteq> A \<and> length input \<noteq> B
      then Inl (error_response_no_handle (input ! 0) invalid_pdu out_size)
      else check_handle srv input out_size)"

section \<open>Exchange MTU\<close>

text \<open>
  The handler returns the response and the connection data; \<open>None\<close> is the failed
  assertion of the setter, which the test \<open>mtu < 23\<close> before it excludes.
\<close>

definition handle_exchange_mtu_request ::
  "u8 list \<Rightarrow> nat \<Rightarrow> connection_data \<Rightarrow> (u8 list \<times> connection_data) option" where
  "handle_exchange_mtu_request input out_size connection =
     (if length input \<noteq> 3
      then Some (error_response_no_handle (input ! 0) invalid_pdu out_size, connection)
      else
        let mtu = read_16bit (drop 1 input)
        in if unat mtu < default_att_mtu_size
           then Some (error_response_no_handle (input ! 0) invalid_pdu out_size, connection)
           else case set_client_mtu connection mtu of
                  None \<Rightarrow> None
                | Some connection' \<Rightarrow>
                    Some (exchange_mtu_response # write_16bit (server_mtu connection'),
                          connection'))"

section \<open>Find Information\<close>

text \<open>
  Modelled from the spec: the octets of \<^verbatim>\<open>att_uuid_format\<close> (the format octet of the
  response) and \<^verbatim>\<open>write_16bit_uuid\<close> are declared in headers that are not among the
  sources. The spec names the two formats and not their octets; 0x01 and 0x02 are the
  ones of the Attribute Protocol, and nothing below depends on them but their being two
  fixed octets.
\<close>

definition short_16bit :: u8 where "short_16bit = 0x01"
definition long_128bit :: u8 where "long_128bit = 0x02"

definition write_16bit_uuid :: "u16 \<Rightarrow> u8 list" where
  "write_16bit_uuid v = write_16bit v"

text \<open>
  \<^verbatim>\<open>write_128bit_uuid\<close> reads the characteristic declaration into a buffer of \<open>3 + 16\<close>
  octets and copies the octets 3 to 18. Its two assertions are the \<open>None\<close> results.
\<close>

definition write_128bit_uuid :: "attribute \<Rightarrow> u8 list option" where
  "write_128bit_uuid char_declaration =
     (if uuid char_declaration \<noteq> characteristic then None
      else case access char_declaration (args_read (3 + 16) 0) 1 of
             (rc, buffer) \<Rightarrow>
               if length buffer \<noteq> 3 + 16 then None else Some (take 16 (drop 3 buffer)))"

text \<open>Counting a 16 bit handle up: what the termination of the loops over handles needs.\<close>

lemma u16_succ: "(start :: u16) + 1 \<noteq> 0 \<Longrightarrow> unat (start + 1) = Suc (unat start)"
  using unatSuc [of start] by (simp add: add.commute)

lemma u16_bound: "unat (start :: u16) < 65536"
  using unsigned_less [of start, where ?'a = nat] by simp

lemma u16_succ_less:
  "(start :: u16) + 1 \<noteq> 0 \<Longrightarrow> 65536 - unat (start + 1) < 65536 - unat start"
  using u16_bound [of start] by (simp add: u16_succ)

text \<open>
  The loop of \<^verbatim>\<open>collect_handle_uuid_tuples\<close>. \<open>room\<close> is \<^verbatim>\<open>out_end - out\<close> and \<open>out\<close> the
  octets written so far. The handle is a 16 bit counter: \<^verbatim>\<open>++start\<close> at 0xFFFF wraps to 0,
  and an iteration at \<open>start = 0\<close>, like one at \<open>start = 1\<close> that looks for the declaration
  in front of the first attribute, calls \<^verbatim>\<open>attribute_at\<close> with an index outside of the
  database: these are \<open>None\<close>.
\<close>

function collect_handle_uuid_tuples ::
  "server \<Rightarrow> u16 \<Rightarrow> u16 \<Rightarrow> bool \<Rightarrow> nat \<Rightarrow> u8 list \<Rightarrow> u8 list option" where
  "collect_handle_uuid_tuples srv start end_handle only_16_bit room out =
     (if start \<le> end_handle \<and> unat start \<le> number_of_attributes srv
         \<and> room \<ge> (if only_16_bit then 2 + 2 else 2 + 16)
      then
        if start = 0 then None
        else if only_16_bit = (uuid (attribute_at srv (unat start - 1)) \<noteq> internal_128bit_uuid)
        then
          if uuid (attribute_at srv (unat start - 1)) \<noteq> internal_128bit_uuid
          then collect_handle_uuid_tuples srv (start + 1) end_handle only_16_bit
                 (room - (if only_16_bit then 2 + 2 else 2 + 16))
                 (out @ write_handle start
                      @ write_16bit_uuid (uuid (attribute_at srv (unat start - 1))))
          else if unat start < 2 then None
          else case write_128bit_uuid (attribute_at srv (unat start - 2)) of
                 None \<Rightarrow> None
               | Some uuid128 \<Rightarrow>
                   collect_handle_uuid_tuples srv (start + 1) end_handle only_16_bit
                     (room - (if only_16_bit then 2 + 2 else 2 + 16))
                     (out @ write_handle start @ uuid128)
        else collect_handle_uuid_tuples srv (start + 1) end_handle only_16_bit room out
      else Some out)"
  by pat_completeness auto
termination
proof (relation "measure (\<lambda>(srv, start, end_handle, only_16_bit, room, out).
        if start = 0 then 0 else 65536 - unat start)")
  show "wf (measure (\<lambda>(srv :: server, start :: u16, end_handle :: u16, only_16_bit :: bool,
        room :: nat, out :: u8 list). if start = 0 then 0 else 65536 - unat start))"
    by simp
qed (auto simp: u16_succ_less u16_bound)

declare collect_handle_uuid_tuples.simps [simp del]

definition handle_find_information_request :: "server \<Rightarrow> u8 list \<Rightarrow> nat \<Rightarrow> u8 list option" where
  "handle_find_information_request srv input out_size =
     (case check_size_and_handle_range 5 5 srv input out_size of
        Inl response \<Rightarrow> Some response
      | Inr (starting_handle, ending_handle) \<Rightarrow>
          let only_16_bit_uuids =
                (uuid (attribute_at srv (unat starting_handle - 1)) \<noteq> internal_128bit_uuid);
              header =
                find_information_response #
                  (if out_size \<noteq> 1
                   then [if only_16_bit_uuids then short_16bit else long_128bit]
                   else [])
          in case collect_handle_uuid_tuples srv starting_handle ending_handle
                    only_16_bit_uuids (out_size - length header) [] of
               None \<Rightarrow> None
             | Some tuples \<Rightarrow> Some (header @ tuples))"

section \<open>Iterating over the services\<close>

text \<open>
  \<^verbatim>\<open>details::for_< services >::each( f )\<close> calls \<^verbatim>\<open>f.each< Service >()\<close> for every service in
  the order of declaration: a fold over the list of services. \<^verbatim>\<open>services_by_group\<close>
  carries \<^verbatim>\<open>index_\<close>, the iterator and \<^verbatim>\<open>found_\<close>; the iterator is called with the
  service and returns its result and its new state. \<^verbatim>\<open>index_\<close> is a 16 bit counter.
\<close>

definition services_by_group_each ::
  "u16 \<Rightarrow> u16 \<Rightarrow> (service \<Rightarrow> 'it \<Rightarrow> u16 \<Rightarrow> attribute \<Rightarrow> bool \<times> 'it)
     \<Rightarrow> (u16 \<Rightarrow> attribute \<Rightarrow> bool) \<Rightarrow> u16 \<times> 'it \<times> bool \<Rightarrow> service \<Rightarrow> u16 \<times> 'it \<times> bool" where
  "services_by_group_each starting_handle ending_handle iter filter_fn st svc =
     (case st of (index, iterator, found) \<Rightarrow>
        if starting_handle \<le> index \<and> index \<le> ending_handle
        then
          if filter_fn index (characteristic_declaration_attribute svc)
          then
            case iter svc iterator index (characteristic_declaration_attribute svc) of
              (r, iterator') \<Rightarrow>
                (index + of_nat (length (attributes svc)), iterator', r \<or> found)
          else (index + of_nat (length (attributes svc)), iterator, found)
        else (index + of_nat (length (attributes svc)), iterator, found))"

definition all_services_by_group ::
  "server \<Rightarrow> u16 \<Rightarrow> u16 \<Rightarrow> (service \<Rightarrow> 'it \<Rightarrow> u16 \<Rightarrow> attribute \<Rightarrow> bool \<times> 'it)
     \<Rightarrow> (u16 \<Rightarrow> attribute \<Rightarrow> bool) \<Rightarrow> 'it \<Rightarrow> bool \<times> 'it" where
  "all_services_by_group srv starting_handle ending_handle iter filter_fn iterator =
     (case foldl (services_by_group_each starting_handle ending_handle iter filter_fn)
             (1, iterator, False) (services srv) of
        (index, iterator', found) \<Rightarrow> (found, iterator'))"

section \<open>Find By Type Value\<close>

definition value_filter :: "u8 list \<Rightarrow> u16 \<Rightarrow> attribute \<Rightarrow> bool" where
  "value_filter v index attr = (fst (access attr (args_compare_value v) 1) = rc_value_equal)"

text \<open>
  \<^verbatim>\<open>collect_find_by_type_groups\<close>: \<open>fbt_room\<close> is \<^verbatim>\<open>end_ - begin_\<close> and \<open>fbt_current\<close> the
  octets between \<^verbatim>\<open>begin_\<close> and \<^verbatim>\<open>current_\<close>. \<^verbatim>\<open>size()\<close> returns an octet.
\<close>

record collect_find_by_type_groups =
  fbt_room :: nat
  fbt_current :: "u8 list"

definition collect_find_by_type_groups_call ::
  "service \<Rightarrow> collect_find_by_type_groups \<Rightarrow> u16 \<Rightarrow> attribute
     \<Rightarrow> bool \<times> collect_find_by_type_groups" where
  "collect_find_by_type_groups_call svc it handle attr =
     (if fbt_room it - length (fbt_current it) \<ge> 4
      then (True, it\<lparr> fbt_current := fbt_current it @ write_handle handle
                @ write_handle (handle + of_nat (length (attributes svc)) - 1) \<rparr>)
      else (False, it))"

definition fbt_size :: "collect_find_by_type_groups \<Rightarrow> u8" where
  "fbt_size it = of_nat (length (fbt_current it))"

definition handle_find_by_type_value_request :: "server \<Rightarrow> u8 list \<Rightarrow> nat \<Rightarrow> u8 list" where
  "handle_find_by_type_value_request srv input out_size =
     (case check_size_and_handle_range 9 23 srv input out_size of
        Inl response \<Rightarrow> response
      | Inr (starting_handle, ending_handle) \<Rightarrow>
          if read_handle (drop 5 input) \<noteq> primary_service
          then error_response (input ! 0) unsupported_group_type starting_handle out_size
          else
            case all_services_by_group srv starting_handle ending_handle
                   collect_find_by_type_groups_call (value_filter (drop 7 input))
                   \<lparr> fbt_room = out_size - 1, fbt_current = [] \<rparr> of
              (found, iterator) \<Rightarrow>
                if found
                then find_by_type_value_response
                       # take (unat (fbt_size iterator)) (fbt_current iterator)
                else error_response (input ! 0) attribute_not_found starting_handle out_size)"

section \<open>Read and Read Blob\<close>

definition handle_read_request :: "server \<Rightarrow> u8 list \<Rightarrow> nat \<Rightarrow> u8 list" where
  "handle_read_request srv input out_size =
     (case check_size_and_handle 3 3 srv input out_size of
        Inl response \<Rightarrow> response
      | Inr handle \<Rightarrow>
          case access (attribute_at srv (unat handle - 1)) (args_read (out_size - 1) 0) handle of
            (rc, buffer) \<Rightarrow>
              if rc = rc_success \<or> rc = rc_read_truncated
              then read_response # buffer
              else error_response (input ! 0) read_not_permitted handle out_size)"

definition handle_read_blob_request :: "server \<Rightarrow> u8 list \<Rightarrow> nat \<Rightarrow> u8 list" where
  "handle_read_blob_request srv input out_size =
     (case check_size_and_handle 5 5 srv input out_size of
        Inl response \<Rightarrow> response
      | Inr handle \<Rightarrow>
          let offset = read_16bit (drop 3 input)
          in case access (attribute_at srv (unat handle - 1))
                    (args_read (out_size - 1) (unat offset)) handle of
               (rc, buffer) \<Rightarrow>
                 if rc = rc_success \<or> rc = rc_read_truncated
                 then read_blob_response # buffer
                 else if rc = rc_invalid_offset
                 then error_response (input ! 0) invalid_offset handle out_size
                 else error_response (input ! 0) read_not_permitted handle out_size)"

section \<open>Read By Type\<close>

text \<open>
  \<^verbatim>\<open>collect_attributes\<close>: \<open>ca_room\<close> is \<^verbatim>\<open>end_ - begin_\<close>, \<open>ca_current\<close> the octets between
  \<^verbatim>\<open>begin_\<close> and \<^verbatim>\<open>current_\<close>, \<open>ca_size\<close> the octet \<^verbatim>\<open>size_\<close> and \<open>ca_first\<close> the flag
  \<^verbatim>\<open>first_\<close>. In the condition on \<^verbatim>\<open>rc\<close>, \<open>&&\<close> binds tighter than \<open>||\<close>. The assertion
  on the size that was read is the \<open>None\<close> result.
\<close>

record collect_attributes =
  ca_room :: nat
  ca_current :: "u8 list"
  ca_size :: u8
  ca_first :: bool

definition maximum_pdu_size :: nat where "maximum_pdu_size = 253"
definition header_size :: nat where "header_size = 2"

definition collect_attributes_call ::
  "collect_attributes \<Rightarrow> u16 \<Rightarrow> attribute \<Rightarrow> collect_attributes option" where
  "collect_attributes_call it handle attr =
     (if ca_room it - length (ca_current it) \<ge> header_size
      then
        let max_data_size =
              min (ca_room it - length (ca_current it)) (maximum_pdu_size + header_size)
                - header_size
        in case access attr (args_read max_data_size 0) handle of
             (rc, buffer) \<Rightarrow>
               if rc = rc_success \<or> (rc = rc_read_truncated \<and> length buffer = maximum_pdu_size)
               then
                 if \<not> length buffer \<le> maximum_pdu_size then None
                 else
                   let it1 = (if ca_first it
                              then it\<lparr> ca_size := of_nat (length buffer + header_size),
                                       ca_first := False \<rparr>
                              else it)
                   in if length buffer + header_size = unat (ca_size it1)
                      then Some (it1\<lparr> ca_current := ca_current it1 @ write_handle handle
                                   @ take (unat (of_nat (length buffer) :: u8)) buffer \<rparr>)
                      else Some it1
               else Some it
      else Some it)"

definition ca_size_octet :: "collect_attributes \<Rightarrow> u8" where
  "ca_size_octet it = of_nat (length (ca_current it))"

text \<open>
  The loop of \<^verbatim>\<open>all_attributes\<close> over the handles, with the wrap of the 16 bit counter as
  in \<^verbatim>\<open>collect_handle_uuid_tuples\<close>.
\<close>

function all_attributes ::
  "server \<Rightarrow> u16 \<Rightarrow> u16 \<Rightarrow> ('it \<Rightarrow> u16 \<Rightarrow> attribute \<Rightarrow> 'it option)
     \<Rightarrow> (u16 \<Rightarrow> attribute \<Rightarrow> bool) \<Rightarrow> 'it \<Rightarrow> 'it option" where
  "all_attributes srv starting_handle ending_handle iter filter_fn it =
     (if starting_handle \<le> ending_handle \<and> unat starting_handle \<le> number_of_attributes srv
      then
        if starting_handle = 0 then None
        else if filter_fn starting_handle (attribute_at srv (unat starting_handle - 1))
        then
          case iter it starting_handle (attribute_at srv (unat starting_handle - 1)) of
            None \<Rightarrow> None
          | Some it' \<Rightarrow> all_attributes srv (starting_handle + 1) ending_handle iter filter_fn it'
        else all_attributes srv (starting_handle + 1) ending_handle iter filter_fn it
      else Some it)"
  by pat_completeness auto
termination
proof (relation "measure (\<lambda>(srv, starting_handle, ending_handle, iter, filter_fn, it).
        if starting_handle = 0 then 0 else 65536 - unat starting_handle)")
  show "wf (measure (\<lambda>(srv :: server, starting_handle :: u16, ending_handle :: u16,
        iter :: 'it \<Rightarrow> u16 \<Rightarrow> attribute \<Rightarrow> 'it option, filter_fn :: u16 \<Rightarrow> attribute \<Rightarrow> bool,
        it :: 'it). if starting_handle = 0 then 0 else 65536 - unat starting_handle))"
    by simp
qed (auto simp: u16_succ_less u16_bound)

declare all_attributes.simps [simp del]

definition handle_read_by_type_request :: "server \<Rightarrow> u8 list \<Rightarrow> nat \<Rightarrow> u8 list option" where
  "handle_read_by_type_request srv input out_size =
     (case check_size_and_handle_range (5 + 2) (5 + 16) srv input out_size of
        Inl response \<Rightarrow> Some response
      | Inr (starting_handle, ending_handle) \<Rightarrow>
          case all_attributes srv starting_handle ending_handle collect_attributes_call
                 (uuid_filter srv (drop 5 input) (length input = 5 + 16))
                 \<lparr> ca_room = out_size - 2, ca_current = [], ca_size = 0, ca_first = True \<rparr> of
            None \<Rightarrow> None
          | Some iterator \<Rightarrow>
              if ca_current iterator \<noteq> []
              then Some (read_by_type_response # ca_size iterator
                           # take (unat (ca_size_octet iterator)) (ca_current iterator))
              else Some (error_response (input ! 0) attribute_not_found starting_handle
                           out_size))"

section \<open>Read By Group Type\<close>

text \<open>
  \<^verbatim>\<open>collect_primary_services\<close>: \<open>cps_output\<close> holds the octets between \<^verbatim>\<open>data_begin\<close> and
  \<^verbatim>\<open>output_\<close>, \<open>cps_room\<close> is \<^verbatim>\<open>end_ - data_begin\<close>, \<open>cps_attribute_data_size\<close> is the octet
  \<^verbatim>\<open>output[ 1 ]\<close> that the reference \<^verbatim>\<open>attribute_data_size_\<close> names (it starts as 0 here and
  is part of a response only after it was assigned).
\<close>

record collect_primary_services =
  cps_output :: "u8 list"
  cps_room :: nat
  cps_index :: u16
  cps_first :: bool
  cps_is_128bit_uuid :: bool
  cps_attribute_data_size :: u8

definition collect_primary_services_each ::
  "u16 \<Rightarrow> u16 \<Rightarrow> collect_primary_services \<Rightarrow> service \<Rightarrow> collect_primary_services" where
  "collect_primary_services_each starting_handle ending_handle st svc =
     (let st2 =
            (if starting_handle \<le> cps_index st \<and> cps_index st \<le> ending_handle
             then
               let st1 = (if cps_first st
                          then st\<lparr> cps_is_128bit_uuid := is_128bit svc,
                                   cps_first := False,
                                   cps_attribute_data_size :=
                                     (if is_128bit svc then 16 + 4 else 2 + 4) \<rparr>
                          else st)
               in st1\<lparr> cps_output := cps_output st1
                         @ read_primary_service_response svc
                             (cps_room st1 - length (cps_output st1)) (cps_index st1)
                             (cps_is_128bit_uuid st1) \<rparr>
             else st)
      in st2\<lparr> cps_index := cps_index st2 + of_nat (length (attributes svc)) \<rparr>)"

definition handle_read_by_group_type_request :: "server \<Rightarrow> u8 list \<Rightarrow> nat \<Rightarrow> u8 list" where
  "handle_read_by_group_type_request srv input out_size =
     (case check_size_and_handle_range (5 + 2) (5 + 16) srv input out_size of
        Inl response \<Rightarrow> response
      | Inr (starting_handle, ending_handle) \<Rightarrow>
          if length input = 5 + 16 \<or> read_handle (drop 5 input) \<noteq> primary_service
          then error_response (input ! 0) unsupported_group_type starting_handle out_size
          else
            let st = foldl (collect_primary_services_each starting_handle ending_handle)
                       \<lparr> cps_output = [], cps_room = out_size - 2, cps_index = 1,
                         cps_first = True, cps_is_128bit_uuid = True,
                         cps_attribute_data_size = 0 \<rparr>
                       (services srv)
            in if cps_output st = []
               then error_response (input ! 0) attribute_not_found starting_handle out_size
               else read_by_group_type_response # cps_attribute_data_size st # cps_output st)"

section \<open>Write\<close>

definition handle_write_request :: "server \<Rightarrow> u8 list \<Rightarrow> nat \<Rightarrow> u8 list" where
  "handle_write_request srv input out_size =
     (if length input < 3
      then error_response_no_handle (input ! 0) invalid_pdu out_size
      else
        case check_handle srv input out_size of
          Inl response \<Rightarrow> response
        | Inr handle \<Rightarrow>
            case access (attribute_at srv (unat handle - 1)) (args_write (drop 3 input))
                   handle of
              (rc, buffer) \<Rightarrow>
                if rc = rc_success then [write_response]
                else if rc = rc_write_overflow
                then error_response (input ! 0) invalid_attribute_value_length handle out_size
                else error_response (input ! 0) write_not_permitted handle out_size)"

section \<open>The dispatcher\<close>

text \<open>
  \<^verbatim>\<open>l2cap_input\<close> clips \<^verbatim>\<open>out_size\<close> to the negotiated MTU, asserts \<open>in_size \<noteq> 0\<close> and
  \<open>out_size \<ge> 23\<close> (a failed assertion is \<open>None\<close>) and switches on the first octet. The
  handlers are private and are reached from here only, so with \<open>out_size \<ge> 23\<close>: the
  differences \<open>out_size - 1\<close> and \<open>out_size - 2\<close> in them are exact. The result is the
  response and the connection data.
\<close>

definition l2cap_input ::
  "server \<Rightarrow> u8 list \<Rightarrow> nat \<Rightarrow> connection_data \<Rightarrow> (u8 list \<times> connection_data) option" where
  "l2cap_input srv input out_size0 connection =
     (let out_size = min out_size0 (unat (negotiated_mtu connection))
      in if length input = 0 then None
         else if \<not> out_size \<ge> default_att_mtu_size then None
         else if input ! 0 = exchange_mtu_request
         then handle_exchange_mtu_request input out_size connection
         else if input ! 0 = find_information_request
         then map_option (\<lambda>r. (r, connection))
                (handle_find_information_request srv input out_size)
         else if input ! 0 = find_by_type_value_request
         then Some (handle_find_by_type_value_request srv input out_size, connection)
         else if input ! 0 = read_by_type_request
         then map_option (\<lambda>r. (r, connection))
                (handle_read_by_type_request srv input out_size)
         else if input ! 0 = read_request
         then Some (handle_read_request srv input out_size, connection)
         else if input ! 0 = read_blob_request
         then Some (handle_read_blob_request srv input out_size, connection)
         else if input ! 0 = read_by_group_type_request
         then Some (handle_read_by_group_type_request srv input out_size, connection)
         else if input ! 0 = write_request
         then Some (handle_write_request srv input out_size, connection)
         else Some (error_response_no_handle (input ! 0) request_not_supported out_size,
                    connection))"

section \<open>Preconditions of the dispatcher\<close>

text \<open>
  What \<^verbatim>\<open>l2cap_input\<close> and \<^verbatim>\<open>connection_data\<close> assert: the PDU is not empty, the output
  buffer has room for 23 octets, and both MTUs of the connection are at least 23 (the
  constructor and the setter assert it). \<open>clipped\<close> is the size the handlers are given.
\<close>

definition l2cap_preconditions :: "u8 list \<Rightarrow> nat \<Rightarrow> connection_data \<Rightarrow> bool" where
  "l2cap_preconditions input out_size c =
     (input \<noteq> [] \<and> 23 \<le> out_size \<and> 23 \<le> unat (server_mtu c) \<and> 23 \<le> unat (client_mtu c))"

definition clipped :: "nat \<Rightarrow> connection_data \<Rightarrow> nat" where
  "clipped out_size c = min out_size (unat (negotiated_mtu c))"

section \<open>The layout of the database\<close>

text \<open>
  The layout of the database, as the iterations over the services count it: every service
  with the handle of its first attribute, the first service at handle 1 (or at \<open>index\<close>),
  the next one behind its attributes.
\<close>

fun service_ranges :: "u16 \<Rightarrow> service list \<Rightarrow> (u16 \<times> service) list" where
  "service_ranges index [] = []"
| "service_ranges index (svc # svcs) =
     (index, svc) # service_ranges (index + of_nat (length (attributes svc))) svcs"

definition services_in_range :: "server \<Rightarrow> u16 \<Rightarrow> u16 \<Rightarrow> (u16 \<times> service) list" where
  "services_in_range srv starting_handle ending_handle =
     filter (\<lambda>(h, svc). starting_handle \<le> h \<and> h \<le> ending_handle)
       (service_ranges 1 (services srv))"

definition matching_services ::
  "u16 \<Rightarrow> u16 \<Rightarrow> (u16 \<Rightarrow> attribute \<Rightarrow> bool) \<Rightarrow> (u16 \<times> service) list \<Rightarrow> (u16 \<times> service) list" where
  "matching_services starting_handle ending_handle filter_fn ranges =
     filter (\<lambda>(h, svc). starting_handle \<le> h \<and> h \<le> ending_handle
                \<and> filter_fn h (characteristic_declaration_attribute svc)) ranges"

definition handle_pair :: "u16 \<times> service \<Rightarrow> u8 list" where
  "handle_pair p = (case p of (h, svc) \<Rightarrow>
     write_handle h @ write_handle (h + of_nat (length (attributes svc)) - 1))"

section \<open>What Read By Type collects\<close>

text \<open>
  The notions the statements about Read By Type are written in. The contract of a read:
  it stores no more octets than the buffer has. A read result is accepted by the iterator
  when it is a success, or is truncated to exactly 253 octets. \<open>read_at\<close> is the read of the
  attribute of a handle from offset 0, \<open>data_room\<close> the size of the buffer the iterator
  offers when \<open>room\<close> octets are left for the tuple, \<open>tuple_octets\<close> the octets of a list
  of tuples of a handle and a value. A handle is a candidate for the first tuple when the
  filter matches its attribute and its read into the whole room is accepted.
  \<open>collected\<close> says that a list of tuples is what the iterator has gathered over the
  handles from \<open>s0\<close> on, and \<open>iterator_of\<close> that the iterator's state stands for the list.
\<close>

definition accepted :: "attribute_access_result \<times> u8 list \<Rightarrow> bool" where
  "accepted r = (fst r = rc_success \<or> fst r = rc_read_truncated \<and> length (snd r) = 253)"

definition read_contract :: "server \<Rightarrow> bool" where
  "read_contract srv =
     (\<forall>a \<in> set (all_attributes_list srv). \<forall>n offset h.
        length (snd (access a (args_read n offset) h)) \<le> n)"

definition read_at :: "server \<Rightarrow> nat \<Rightarrow> u16 \<Rightarrow> attribute_access_result \<times> u8 list" where
  "read_at srv n h = access (attribute_at srv (unat h - 1)) (args_read n 0) h"

definition data_room :: "nat \<Rightarrow> nat" where
  "data_room room = min room 255 - 2"

definition tuple_octets :: "(u16 \<times> u8 list) list \<Rightarrow> u8 list" where
  "tuple_octets ts = concat (map (\<lambda>(h, v). write_handle h @ v) ts)"

definition candidate :: "server \<Rightarrow> (u16 \<Rightarrow> attribute \<Rightarrow> bool) \<Rightarrow> nat \<Rightarrow> u16 \<Rightarrow> bool" where
  "candidate srv flt room h =
     (flt h (attribute_at srv (unat h - 1)) \<and> accepted (read_at srv (data_room room) h))"

definition collected ::
  "server \<Rightarrow> u16 \<Rightarrow> u16 \<Rightarrow> (u16 \<Rightarrow> attribute \<Rightarrow> bool) \<Rightarrow> nat \<Rightarrow> (u16 \<times> u8 list) list \<Rightarrow> bool" where
  "collected srv s0 e flt room ts =
     (length (tuple_octets ts) \<le> room
      \<and> (ts \<noteq> [] \<longrightarrow>
            length (snd (hd ts)) \<le> 253
          \<and> candidate srv flt room (fst (hd ts))
          \<and> snd (hd ts) = snd (read_at srv (data_room room) (fst (hd ts)))
          \<and> (\<forall>h'. s0 \<le> h' \<and> h' < fst (hd ts) \<longrightarrow> \<not> candidate srv flt room h'))
      \<and> (\<forall>(h, v) \<in> set ts.
            s0 \<le> h \<and> h \<le> e \<and> unat h \<le> number_of_attributes srv
          \<and> flt h (attribute_at srv (unat h - 1))
          \<and> length v = length (snd (hd ts))
          \<and> (\<exists>n. accepted (read_at srv n h) \<and> v = snd (read_at srv n h))))"

definition iterator_of :: "collect_attributes \<Rightarrow> nat \<Rightarrow> (u16 \<times> u8 list) list \<Rightarrow> bool" where
  "iterator_of it room ts =
     (ca_room it = room \<and> ca_current it = tuple_octets ts \<and> ca_first it = (ts = [])
      \<and> (ts \<noteq> [] \<longrightarrow> ca_size it = of_nat (length (snd (hd ts)) + 2)))"

section \<open>Well-formed servers\<close>

text \<open>
  What the handlers rely on and do not check. The database has fewer than 65535 attributes,
  so that no handle counter wraps. Reads keep their contract. A service's
  \<^verbatim>\<open>read_primary_service_response\<close> stays inside the room it is given. An attribute with
  the sentinel UUID stands behind a characteristic declaration from which
  \<^verbatim>\<open>write_128bit_uuid\<close> can take the 128 bit UUID.
\<close>

definition primary_service_contract :: "server \<Rightarrow> bool" where
  "primary_service_contract srv =
     (\<forall>svc \<in> set (services srv). \<forall>room index is_128bit_filter.
        length (read_primary_service_response svc room index is_128bit_filter) \<le> room)"

definition uuid128_layout :: "server \<Rightarrow> bool" where
  "uuid128_layout srv =
     (\<forall>i < number_of_attributes srv.
        uuid (attribute_at srv i) = internal_128bit_uuid \<longrightarrow>
          1 \<le> i \<and> write_128bit_uuid (attribute_at srv (i - 1)) \<noteq> None)"

definition server_ok :: "server \<Rightarrow> bool" where
  "server_ok srv =
     (number_of_attributes srv < 65535 \<and> read_contract srv \<and> primary_service_contract srv
      \<and> uuid128_layout srv)"

section \<open>Example databases\<close>

text \<open>
  Concrete access functions, used to evaluate the handlers: a value of fixed content that
  cannot be written, and a value that accepts writes of up to \<open>capacity\<close> octets. A read
  copies what fits into the buffer from the offset on.
\<close>

definition read_value :: "u8 list \<Rightarrow> nat \<Rightarrow> nat \<Rightarrow> attribute_access_result \<times> u8 list" where
  "read_value v buffer_size offset =
     (if offset > length v then (rc_invalid_offset, [])
      else (if length v - offset > buffer_size then rc_read_truncated else rc_success,
            take buffer_size (drop offset v)))"

fun fixed_value_access ::
  "u8 list \<Rightarrow> attribute_access_arguments \<Rightarrow> u16 \<Rightarrow> attribute_access_result \<times> u8 list" where
  "fixed_value_access v (args_read buffer_size offset) h = read_value v buffer_size offset"
| "fixed_value_access v (args_write w) h = (rc_write_not_permitted, [])"
| "fixed_value_access v (args_compare_value w) h =
     (if w = v then rc_value_equal else rc_value_not_equal, [])"

fun writable_value_access ::
  "nat \<Rightarrow> u8 list \<Rightarrow> attribute_access_arguments \<Rightarrow> u16
     \<Rightarrow> attribute_access_result \<times> u8 list" where
  "writable_value_access capacity v (args_read buffer_size offset) h =
     read_value v buffer_size offset"
| "writable_value_access capacity v (args_write w) h =
     (if length w > capacity then rc_write_overflow else rc_success, [])"
| "writable_value_access capacity v (args_compare_value w) h =
     (if w = v then rc_value_equal else rc_value_not_equal, [])"

definition uuid16_filter :: "u8 list \<Rightarrow> bool \<Rightarrow> u16 \<Rightarrow> attribute \<Rightarrow> bool" where
  "uuid16_filter bytes is_128 index attr = (\<not> is_128 \<and> read_16bit bytes = uuid attr)"

definition primary_service_response ::
  "u8 list \<Rightarrow> nat \<Rightarrow> nat \<Rightarrow> u16 \<Rightarrow> bool \<Rightarrow> u8 list" where
  "primary_service_response service_uuid n room index is_128bit_filter =
     (if \<not> is_128bit_filter \<and> room \<ge> 2 + 4
      then write_handle index @ write_handle (index + of_nat n - 1) @ service_uuid
      else [])"

text \<open>
  The database of the spec's scenarios: one primary service 0x180F at the handles 1 to 3,
  the declaration of the Battery Level characteristic at 2 and its value 0x55 at 3.
\<close>

definition battery_declaration :: attribute where
  "battery_declaration = \<lparr> uuid = primary_service, access = fixed_value_access [0x0F, 0x18] \<rparr>"

definition battery_service :: service where
  "battery_service =
     \<lparr> attributes =
         [ battery_declaration,
           \<lparr> uuid = characteristic, access = fixed_value_access [0x12, 0x03, 0x00, 0x19, 0x2A] \<rparr>,
           \<lparr> uuid = 0x2A19, access = fixed_value_access [0x55] \<rparr> ],
       is_128bit = False,
       characteristic_declaration_attribute = battery_declaration,
       read_primary_service_response = primary_service_response [0x0F, 0x18] 3 \<rparr>"

definition battery_server :: server where
  "battery_server = \<lparr> services = [battery_service], uuid_filter = uuid16_filter \<rparr>"

definition connection23 :: connection_data where
  "connection23 = \<lparr> server_mtu = 23, client_mtu = 23 \<rparr>"

text \<open>
  A second database, one service at the handles 1 to 7: a characteristic 0x2A19 whose value
  has 30 octets (handle 3), a characteristic 0x2A19 whose value has one octet and accepts
  writes of one octet (handle 5), and a characteristic 0x2A1A that can be written and not
  read (handle 7).
\<close>

fun write_only_value_access ::
  "nat \<Rightarrow> attribute_access_arguments \<Rightarrow> u16 \<Rightarrow> attribute_access_result \<times> u8 list" where
  "write_only_value_access capacity (args_read buffer_size offset) h = (rc_read_not_permitted, [])"
| "write_only_value_access capacity (args_write w) h =
     (if length w > capacity then rc_write_overflow else rc_success, [])"
| "write_only_value_access capacity (args_compare_value w) h = (rc_value_not_equal, [])"

definition sensor_declaration :: attribute where
  "sensor_declaration = \<lparr> uuid = primary_service, access = fixed_value_access [0x1A, 0x18] \<rparr>"

definition sensor_service :: service where
  "sensor_service =
     \<lparr> attributes =
         [ sensor_declaration,
           \<lparr> uuid = characteristic, access = fixed_value_access [0x02, 0x03, 0x00, 0x19, 0x2A] \<rparr>,
           \<lparr> uuid = 0x2A19, access = fixed_value_access (replicate 30 0xAA) \<rparr>,
           \<lparr> uuid = characteristic, access = fixed_value_access [0x0A, 0x05, 0x00, 0x19, 0x2A] \<rparr>,
           \<lparr> uuid = 0x2A19, access = writable_value_access 1 [0x55] \<rparr>,
           \<lparr> uuid = characteristic, access = fixed_value_access [0x08, 0x07, 0x00, 0x1A, 0x2A] \<rparr>,
           \<lparr> uuid = 0x2A1A, access = write_only_value_access 1 \<rparr> ],
       is_128bit = False,
       characteristic_declaration_attribute = sensor_declaration,
       read_primary_service_response = primary_service_response [0x1A, 0x18] 7 \<rparr>"

definition sensor_server :: server where
  "sensor_server = \<lparr> services = [sensor_service], uuid_filter = uuid16_filter \<rparr>"

text \<open>Six services with the UUID 0x180F, at the handles 1, 4, 7, 10, 13 and 16.\<close>

definition six_services_server :: server where
  "six_services_server = \<lparr> services = replicate 6 battery_service, uuid_filter = uuid16_filter \<rparr>"

text \<open>
  A database with three values of 100 octets under the UUID 0x2A19 (handles 2 to 4), and a
  connection whose MTUs are 512.
\<close>

definition wide_declaration :: attribute where
  "wide_declaration = \<lparr> uuid = primary_service, access = fixed_value_access [0x0F, 0x18] \<rparr>"

definition wide_service :: service where
  "wide_service =
     \<lparr> attributes =
         [ wide_declaration,
           \<lparr> uuid = 0x2A19, access = fixed_value_access (replicate 100 0x11) \<rparr>,
           \<lparr> uuid = 0x2A19, access = fixed_value_access (replicate 100 0x22) \<rparr>,
           \<lparr> uuid = 0x2A19, access = fixed_value_access (replicate 100 0x33) \<rparr> ],
       is_128bit = False,
       characteristic_declaration_attribute = wide_declaration,
       read_primary_service_response = primary_service_response [0x0F, 0x18] 4 \<rparr>"

definition wide_server :: server where
  "wide_server = \<lparr> services = [wide_service], uuid_filter = uuid16_filter \<rparr>"

definition connection512 :: connection_data where
  "connection512 = \<lparr> server_mtu = 512, client_mtu = 512 \<rparr>"

section \<open>Basic facts\<close>

lemmas att_opcodes_defs =
  error_response_opcode_def exchange_mtu_request_def exchange_mtu_response_def
  find_information_request_def find_information_response_def
  find_by_type_value_request_def find_by_type_value_response_def
  read_by_type_request_def read_by_type_response_def read_request_def read_response_def
  read_blob_request_def read_blob_response_def read_by_group_type_request_def
  read_by_group_type_response_def write_request_def write_response_def

lemma unat_negotiated_mtu:
  "unat (negotiated_mtu c) = min (unat (server_mtu c)) (unat (client_mtu c))"
  by (simp add: negotiated_mtu_def min_def word_le_nat_alt)

lemma clipped_ge: "l2cap_preconditions input out_size c \<Longrightarrow> 23 \<le> clipped out_size c"
  by (simp add: l2cap_preconditions_def clipped_def unat_negotiated_mtu)

text \<open>Under its preconditions the dispatcher is the switch on the first octet.\<close>

lemma l2cap_input_cases:
  assumes "l2cap_preconditions input out_size c"
  shows "l2cap_input srv input out_size c =
     (if input ! 0 = 0x02
         then handle_exchange_mtu_request input (clipped out_size c) c
         else if input ! 0 = 0x04
         then map_option (\<lambda>r. (r, c))
                (handle_find_information_request srv input (clipped out_size c))
         else if input ! 0 = 0x06
         then Some (handle_find_by_type_value_request srv input (clipped out_size c), c)
         else if input ! 0 = 0x08
         then map_option (\<lambda>r. (r, c))
                (handle_read_by_type_request srv input (clipped out_size c))
         else if input ! 0 = 0x0A
         then Some (handle_read_request srv input (clipped out_size c), c)
         else if input ! 0 = 0x0C
         then Some (handle_read_blob_request srv input (clipped out_size c), c)
         else if input ! 0 = 0x10
         then Some (handle_read_by_group_type_request srv input (clipped out_size c), c)
         else if input ! 0 = 0x12
         then Some (handle_write_request srv input (clipped out_size c), c)
         else Some (error_response_no_handle (input ! 0) request_not_supported
                      (clipped out_size c), c))"
  using clipped_ge [OF assms] assms
  by (simp add: l2cap_input_def Let_def clipped_def [symmetric] default_att_mtu_size_def
      att_opcodes_defs l2cap_preconditions_def)

lemma error_response_octets:
  "5 \<le> out_size \<Longrightarrow> error_response opcode code handle out_size =
     [0x01, opcode, ucast (handle AND 0xff), ucast (drop_bit 8 handle), bits code]"
  by (simp add: error_response_def error_response_opcode_def)

lemma error_response_no_handle_octets:
  "5 \<le> out_size \<Longrightarrow> error_response_no_handle opcode code out_size =
     [0x01, opcode, 0, 0, bits code]"
  by (simp add: error_response_no_handle_def error_response_octets)

lemma battery_preconditions: "input \<noteq> [] \<Longrightarrow> l2cap_preconditions input 23 connection23"
  by (simp add: l2cap_preconditions_def connection23_def)

section \<open>Exchange MTU\<close>

text \<open>
  C7. An Exchange MTU Request (first octet 0x02) whose length is not 3, or whose requested
  MTU is below 23, is answered with the Error Response \<open>01 02 00 00 04\<close> (invalid_pdu) and
  the connection is unchanged. Otherwise the requested MTU becomes the client MTU of the
  connection, the server MTU stays, the response is \<open>03\<close> followed by the server MTU in
  little-endian order, and the negotiated MTU of the connection is then the minimum of the
  server MTU and the requested MTU.
\<close>

theorem exchange_mtu_request_response:
  assumes "l2cap_preconditions input out_size c" and "input ! 0 = 0x02"
  shows "(length input \<noteq> 3 \<longrightarrow>
            l2cap_input srv input out_size c = Some ([0x01, 0x02, 0, 0, 0x04], c))
       \<and> (length input = 3 \<and> unat (read_16bit (drop 1 input)) < 23 \<longrightarrow>
            l2cap_input srv input out_size c = Some ([0x01, 0x02, 0, 0, 0x04], c))
       \<and> (length input = 3 \<and> 23 \<le> unat (read_16bit (drop 1 input)) \<longrightarrow>
            (\<exists>c'. l2cap_input srv input out_size c =
                    Some ([0x03, ucast (server_mtu c AND 0xff),
                           ucast (drop_bit 8 (server_mtu c))], c')
                  \<and> client_mtu c' = read_16bit (drop 1 input)
                  \<and> server_mtu c' = server_mtu c
                  \<and> negotiated_mtu c' = min (server_mtu c) (read_16bit (drop 1 input))))"
  using clipped_ge [OF assms(1)] assms(2)
  by (simp add: l2cap_input_cases [OF assms(1)] handle_exchange_mtu_request_def
      error_response_no_handle_octets default_att_mtu_size_def set_client_mtu_def
      exchange_mtu_response_def write_16bit_def negotiated_mtu_def Let_def)

theorem exchange_mtu_request_response_witness:
  "l2cap_input battery_server [0x02, 0x17] 23 connection23
       = Some ([0x01, 0x02, 0, 0, 0x04], connection23)
   \<and> l2cap_input battery_server [0x02, 0x16, 0x00] 23 connection23
       = Some ([0x01, 0x02, 0, 0, 0x04], connection23)
   \<and> (\<exists>c'. l2cap_input battery_server [0x02, 0x40, 0x00] 23 connection23
              = Some ([0x03, 0x17, 0x00], c')
            \<and> client_mtu c' = 0x40 \<and> server_mtu c' = 23
            \<and> negotiated_mtu c' = 23)"
  using exchange_mtu_request_response [OF battery_preconditions, of "[0x02, 0x17]" battery_server]
    exchange_mtu_request_response [OF battery_preconditions, of "[0x02, 0x16, 0x00]" battery_server]
    exchange_mtu_request_response [OF battery_preconditions, of "[0x02, 0x40, 0x00]" battery_server]
  by (simp add: read_16bit_def connection23_def)

section \<open>Validation of the handle range\<close>

lemma check_range_invalid_pdu:
  "length input \<noteq> A \<Longrightarrow> length input \<noteq> B \<Longrightarrow> 5 \<le> out_size \<Longrightarrow>
   check_size_and_handle_range A B srv input out_size = Inl [0x01, input ! 0, 0, 0, 0x04]"
  by (simp add: check_size_and_handle_range_def error_response_no_handle_octets)

lemma check_range_invalid_handle:
  "length input = A \<or> length input = B \<Longrightarrow> 5 \<le> out_size \<Longrightarrow>
   read_handle (drop 1 input) = 0 \<or> read_handle (drop 1 input) > read_handle (drop 3 input) \<Longrightarrow>
   check_size_and_handle_range A B srv input out_size =
     Inl [0x01, input ! 0, ucast (read_handle (drop 1 input) AND 0xff),
          ucast (drop_bit 8 (read_handle (drop 1 input))), 0x01]"
  by (auto simp add: check_size_and_handle_range_def error_response_octets Let_def)

lemma check_range_not_found:
  "length input = A \<or> length input = B \<Longrightarrow> 5 \<le> out_size \<Longrightarrow>
   read_handle (drop 1 input) \<noteq> 0 \<Longrightarrow> read_handle (drop 1 input) \<le> read_handle (drop 3 input) \<Longrightarrow>
   unat (read_handle (drop 1 input)) > number_of_attributes srv \<Longrightarrow>
   check_size_and_handle_range A B srv input out_size =
     Inl [0x01, input ! 0, ucast (read_handle (drop 1 input) AND 0xff),
          ucast (drop_bit 8 (read_handle (drop 1 input))), 0x0A]"
  by (auto simp add: check_size_and_handle_range_def error_response_octets Let_def)

lemma check_range_ok:
  "length input = A \<or> length input = B \<Longrightarrow>
   read_handle (drop 1 input) \<noteq> 0 \<Longrightarrow> read_handle (drop 1 input) \<le> read_handle (drop 3 input) \<Longrightarrow>
   unat (read_handle (drop 1 input)) \<le> number_of_attributes srv \<Longrightarrow>
   check_size_and_handle_range A B srv input out_size =
     Inr (read_handle (drop 1 input), read_handle (drop 3 input))"
  by (auto simp add: check_size_and_handle_range_def Let_def)

text \<open>A range-taking request for which the check fails is answered with the check's response.\<close>

lemma range_request_check_failed:
  assumes "l2cap_preconditions input out_size c"
    and "(input ! 0, A, B) \<in> {(0x04, 5, 5), (0x06, 9, 23), (0x08, 7, 21), (0x10, 7, 21)}"
    and "check_size_and_handle_range A B srv input (clipped out_size c) = Inl response"
  shows "l2cap_input srv input out_size c = Some (response, c)"
  using assms(2,3)
  by (auto simp add: l2cap_input_cases [OF assms(1)] handle_find_information_request_def
      handle_find_by_type_value_request_def handle_read_by_type_request_def
      handle_read_by_group_type_request_def)

text \<open>
  C4. For a Find Information (0x04, length 5), Find By Type Value (0x06, length 9 or 23),
  Read By Type (0x08, length 7 or 21) or Read By Group Type (0x10, length 7 or 21) Request:
  a PDU of neither length is answered with invalid_pdu (and handle 0); with an allowed
  length, a starting handle that is 0 or greater than the ending handle is answered with
  invalid_handle and the starting handle in the handle field; otherwise a starting handle
  greater than the number of attributes is answered with attribute_not_found and the
  starting handle; otherwise the check succeeds and returns the starting and the ending
  handle.
\<close>

theorem range_validation:
  assumes "l2cap_preconditions input out_size c"
    and "(input ! 0, A, B) \<in> {(0x04, 5, 5), (0x06, 9, 23), (0x08, 7, 21), (0x10, 7, 21)}"
    and "s = read_handle (drop 1 input)" and "e = read_handle (drop 3 input)"
  shows "(length input \<noteq> A \<and> length input \<noteq> B \<longrightarrow>
            l2cap_input srv input out_size c = Some ([0x01, input ! 0, 0, 0, 0x04], c))
       \<and> ((length input = A \<or> length input = B) \<and> (s = 0 \<or> s > e) \<longrightarrow>
            l2cap_input srv input out_size c =
              Some ([0x01, input ! 0, ucast (s AND 0xff), ucast (drop_bit 8 s), 0x01], c))
       \<and> ((length input = A \<or> length input = B) \<and> s \<noteq> 0 \<and> s \<le> e
              \<and> unat s > number_of_attributes srv \<longrightarrow>
            l2cap_input srv input out_size c =
              Some ([0x01, input ! 0, ucast (s AND 0xff), ucast (drop_bit 8 s), 0x0A], c))
       \<and> ((length input = A \<or> length input = B) \<and> s \<noteq> 0 \<and> s \<le> e
              \<and> unat s \<le> number_of_attributes srv \<longrightarrow>
            check_size_and_handle_range A B srv input (clipped out_size c) = Inr (s, e))"
proof -
  have five: "5 \<le> clipped out_size c"
    using clipped_ge [OF assms(1)] by simp
  note failed = range_request_check_failed [OF assms(1,2)]
  show ?thesis
    unfolding assms(3,4)
    by (intro conjI impI; elim conjE)
       (rule failed, rule check_range_invalid_pdu [OF _ _ five], assumption+,
        rule failed, rule check_range_invalid_handle [OF _ five], assumption+,
        rule failed, rule check_range_not_found [OF _ five], assumption+,
        rule check_range_ok, assumption+)
qed

theorem range_validation_witness:
  "l2cap_input battery_server [0x04, 0x01, 0x00] 23 connection23
       = Some ([0x01, 0x04, 0, 0, 0x04], connection23)
   \<and> l2cap_input battery_server [0x08, 0x03, 0x00, 0x02, 0x00, 0x19, 0x2A] 23 connection23
       = Some ([0x01, 0x08, 0x03, 0x00, 0x01], connection23)
   \<and> l2cap_input battery_server [0x10, 0x09, 0x00, 0xFF, 0xFF, 0x00, 0x28] 23 connection23
       = Some ([0x01, 0x10, 0x09, 0x00, 0x0A], connection23)
   \<and> check_size_and_handle_range 9 23 battery_server
        [0x06, 0x01, 0x00, 0xFF, 0xFF, 0x00, 0x28, 0x0F, 0x18] (clipped 23 connection23)
       = Inr (0x0001, 0xFFFF)"
  using
    range_validation [OF battery_preconditions, of "[0x04, 0x01, 0x00]" 5 5 _ _ battery_server]
    range_validation [OF battery_preconditions,
      of "[0x08, 0x03, 0x00, 0x02, 0x00, 0x19, 0x2A]" 7 21 _ _ battery_server]
    range_validation [OF battery_preconditions,
      of "[0x10, 0x09, 0x00, 0xFF, 0xFF, 0x00, 0x28]" 7 21 _ _ battery_server]
    range_validation [OF battery_preconditions,
      of "[0x06, 0x01, 0x00, 0xFF, 0xFF, 0x00, 0x28, 0x0F, 0x18]" 9 23 _ _ battery_server]
  by (simp add: read_handle_def read_16bit_def number_of_attributes_def all_attributes_list_def
      battery_server_def battery_service_def)

section \<open>Sizes of a Find By Type Value Request\<close>

text \<open>
  C3, as the code has it. A Find By Type Value Request is answered with the invalid_pdu
  Error Response exactly when its length is neither 9 nor 23: the two lengths of the
  template arguments are the only ones that pass, the lengths 10 to 22 do not.
\<close>

theorem find_by_type_value_sizes:
  assumes "l2cap_preconditions input out_size c" and "input ! 0 = 0x06"
  shows "(l2cap_input srv input out_size c = Some ([0x01, 0x06, 0, 0, 0x04], c))
           \<longleftrightarrow> (length input \<noteq> 9 \<and> length input \<noteq> 23)"
proof -
  have five: "5 \<le> clipped out_size c"
    using clipped_ge [OF assms(1)] by simp
  show ?thesis
    using assms(2) five
    by (auto simp add: l2cap_input_cases [OF assms(1)] handle_find_by_type_value_request_def
        check_size_and_handle_range_def error_response_octets error_response_no_handle_octets
        find_by_type_value_response_def Let_def split: prod.splits)
qed

theorem find_by_type_value_sizes_witness:
  "l2cap_input battery_server [0x06, 0x01, 0x00, 0xFF, 0xFF, 0x00, 0x28, 0x0F, 0x18, 0x00] 23
        connection23 = Some ([0x01, 0x06, 0, 0, 0x04], connection23)
   \<and> l2cap_input battery_server [0x06, 0x01, 0x00, 0xFF, 0xFF, 0x00, 0x28, 0x0F, 0x18] 23
        connection23 \<noteq> Some ([0x01, 0x06, 0, 0, 0x04], connection23)"
  using
    find_by_type_value_sizes [OF battery_preconditions,
      of "[0x06, 0x01, 0x00, 0xFF, 0xFF, 0x00, 0x28, 0x0F, 0x18, 0x00]" battery_server]
    find_by_type_value_sizes [OF battery_preconditions,
      of "[0x06, 0x01, 0x00, 0xFF, 0xFF, 0x00, 0x28, 0x0F, 0x18]" battery_server]
  by simp

text \<open>
  A request of 10 octets, a length between 9 and 23, is rejected with invalid_pdu.
\<close>

theorem find_by_type_value_length_10_rejected:
  "length [0x06, 0x01, 0x00, 0xFF, 0xFF, 0x00, 0x28, 0x0F, 0x18, 0x00 :: u8] = 10
   \<and> l2cap_input battery_server [0x06, 0x01, 0x00, 0xFF, 0xFF, 0x00, 0x28, 0x0F, 0x18, 0x00] 23
        connection23 = Some ([0x01, 0x06, 0, 0, 0x04], connection23)"
  by code_simp

section \<open>Read, Read Blob and Write\<close>

lemmas sensor_defs =
  sensor_server_def sensor_service_def sensor_declaration_def number_of_attributes_def
  all_attributes_list_def attribute_at_def read_handle_def read_16bit_def clipped_def
  unat_negotiated_mtu connection23_def read_value_def

text \<open>
  C5. A Read Request (0x0A, length 3, offset 0, response opcode 0x0B) or a Read Blob
  Request (0x0C, length 5, the offset of the PDU, response opcode 0x0D): handle 0 is
  answered with invalid_handle, a handle above the number of attributes with
  attribute_not_found. Otherwise the attribute is read into the region of
  \<open>out_size - 1\<close> octets behind the opcode, at the offset; on success or read_truncated
  the response is the response opcode followed by the octets read, so its size is 1 plus
  their number; on invalid_offset a Read Blob Request is answered with invalid_offset; every
  other result is answered with read_not_permitted.
\<close>

theorem read_requests:
  assumes "l2cap_preconditions input out_size c"
    and "(input ! 0 = 0x0A \<and> length input = 3 \<and> response_opcode = 0x0B \<and> offset = 0)
       \<or> (input ! 0 = 0x0C \<and> length input = 5 \<and> response_opcode = 0x0D
            \<and> offset = unat (read_16bit (drop 3 input)))"
    and "h = read_handle (drop 1 input)"
    and "rc = fst (access (attribute_at srv (unat h - 1))
                    (args_read (clipped out_size c - 1) offset) h)"
    and "bytes = snd (access (attribute_at srv (unat h - 1))
                    (args_read (clipped out_size c - 1) offset) h)"
  shows "(h = 0 \<longrightarrow>
            l2cap_input srv input out_size c = Some ([0x01, input ! 0, 0, 0, 0x01], c))
       \<and> (h \<noteq> 0 \<and> unat h > number_of_attributes srv \<longrightarrow>
            l2cap_input srv input out_size c =
              Some ([0x01, input ! 0, ucast (h AND 0xff), ucast (drop_bit 8 h), 0x0A], c))
       \<and> (h \<noteq> 0 \<and> unat h \<le> number_of_attributes srv
              \<and> (rc = rc_success \<or> rc = rc_read_truncated) \<longrightarrow>
            l2cap_input srv input out_size c = Some (response_opcode # bytes, c)
            \<and> length (response_opcode # bytes) = 1 + length bytes)
       \<and> (h \<noteq> 0 \<and> unat h \<le> number_of_attributes srv \<and> input ! 0 = 0x0C
              \<and> rc = rc_invalid_offset \<longrightarrow>
            l2cap_input srv input out_size c =
              Some ([0x01, 0x0C, ucast (h AND 0xff), ucast (drop_bit 8 h), 0x07], c))
       \<and> (h \<noteq> 0 \<and> unat h \<le> number_of_attributes srv
              \<and> rc \<noteq> rc_success \<and> rc \<noteq> rc_read_truncated
              \<and> (input ! 0 = 0x0A \<or> rc \<noteq> rc_invalid_offset) \<longrightarrow>
            l2cap_input srv input out_size c =
              Some ([0x01, input ! 0, ucast (h AND 0xff), ucast (drop_bit 8 h), 0x02], c))"
proof -
  have five: "5 \<le> clipped out_size c"
    using clipped_ge [OF assms(1)] by simp
  from assms(2) show ?thesis
  proof
    assume "input ! 0 = 0x0A \<and> length input = 3 \<and> response_opcode = 0x0B \<and> offset = 0"
    then show ?thesis
      using five assms(3,4,5)
      by (simp add: l2cap_input_cases [OF assms(1)] handle_read_request_def
          check_size_and_handle_def check_handle_def error_response_octets Let_def
          read_response_def split: prod.splits)
  next
    assume "input ! 0 = 0x0C \<and> length input = 5 \<and> response_opcode = 0x0D
            \<and> offset = unat (read_16bit (drop 3 input))"
    then show ?thesis
      using five assms(3,4,5)
      by (simp add: l2cap_input_cases [OF assms(1)] handle_read_blob_request_def
          check_size_and_handle_def check_handle_def error_response_octets Let_def
          read_blob_response_def split: prod.splits)
  qed
qed

theorem read_requests_witness:
  "l2cap_input sensor_server [0x0A, 0x00, 0x00] 23 connection23
       = Some ([0x01, 0x0A, 0x00, 0x00, 0x01], connection23)
   \<and> l2cap_input sensor_server [0x0C, 0x09, 0x00, 0x00, 0x00] 23 connection23
       = Some ([0x01, 0x0C, 0x09, 0x00, 0x0A], connection23)
   \<and> l2cap_input sensor_server [0x0A, 0x05, 0x00] 23 connection23
       = Some ([0x0B, 0x55], connection23)
   \<and> l2cap_input sensor_server [0x0C, 0x03, 0x00, 0x05, 0x00] 23 connection23
       = Some (0x0D # replicate 22 0xAA, connection23)
   \<and> l2cap_input sensor_server [0x0C, 0x03, 0x00, 0x1F, 0x00] 23 connection23
       = Some ([0x01, 0x0C, 0x03, 0x00, 0x07], connection23)
   \<and> l2cap_input sensor_server [0x0A, 0x07, 0x00] 23 connection23
       = Some ([0x01, 0x0A, 0x07, 0x00, 0x02], connection23)"
  using
    read_requests [OF battery_preconditions _ refl refl refl,
      where input = "[0x0A, 0x00, 0x00]" and srv = sensor_server
        and response_opcode = "0x0B" and offset = "0"]
    read_requests [OF battery_preconditions _ refl refl refl,
      where input = "[0x0C, 0x09, 0x00, 0x00, 0x00]" and srv = sensor_server
        and response_opcode = "0x0D" and offset = "0"]
    read_requests [OF battery_preconditions _ refl refl refl,
      where input = "[0x0A, 0x05, 0x00]" and srv = sensor_server
        and response_opcode = "0x0B" and offset = "0"]
    read_requests [OF battery_preconditions _ refl refl refl,
      where input = "[0x0C, 0x03, 0x00, 0x05, 0x00]" and srv = sensor_server
        and response_opcode = "0x0D" and offset = "5"]
    read_requests [OF battery_preconditions _ refl refl refl,
      where input = "[0x0C, 0x03, 0x00, 0x1F, 0x00]" and srv = sensor_server
        and response_opcode = "0x0D" and offset = "31"]
    read_requests [OF battery_preconditions _ refl refl refl,
      where input = "[0x0A, 0x07, 0x00]" and srv = sensor_server
        and response_opcode = "0x0B" and offset = "0"]
  by (simp add: sensor_defs)

text \<open>
  C6. A Write Request (0x12) shorter than 3 octets is answered with invalid_pdu. Otherwise
  the handle is validated (0: invalid_handle, above the number of attributes:
  attribute_not_found) and the attribute's write is called with the octets of the PDU from
  the fourth on; success gives the response of the single octet 0x13, write_overflow the
  Error Response invalid_attribute_value_length, every other result write_not_permitted.
\<close>

theorem write_request:
  assumes "l2cap_preconditions input out_size c" and "input ! 0 = 0x12"
    and "h = read_handle (drop 1 input)"
    and "rc = fst (access (attribute_at srv (unat h - 1)) (args_write (drop 3 input)) h)"
  shows "(length input < 3 \<longrightarrow>
            l2cap_input srv input out_size c = Some ([0x01, 0x12, 0, 0, 0x04], c))
       \<and> (3 \<le> length input \<and> h = 0 \<longrightarrow>
            l2cap_input srv input out_size c = Some ([0x01, 0x12, 0, 0, 0x01], c))
       \<and> (3 \<le> length input \<and> h \<noteq> 0 \<and> unat h > number_of_attributes srv \<longrightarrow>
            l2cap_input srv input out_size c =
              Some ([0x01, 0x12, ucast (h AND 0xff), ucast (drop_bit 8 h), 0x0A], c))
       \<and> (3 \<le> length input \<and> h \<noteq> 0 \<and> unat h \<le> number_of_attributes srv
              \<and> rc = rc_success \<longrightarrow>
            l2cap_input srv input out_size c = Some ([0x13], c))
       \<and> (3 \<le> length input \<and> h \<noteq> 0 \<and> unat h \<le> number_of_attributes srv
              \<and> rc = rc_write_overflow \<longrightarrow>
            l2cap_input srv input out_size c =
              Some ([0x01, 0x12, ucast (h AND 0xff), ucast (drop_bit 8 h), 0x0D], c))
       \<and> (3 \<le> length input \<and> h \<noteq> 0 \<and> unat h \<le> number_of_attributes srv
              \<and> rc \<noteq> rc_success \<and> rc \<noteq> rc_write_overflow \<longrightarrow>
            l2cap_input srv input out_size c =
              Some ([0x01, 0x12, ucast (h AND 0xff), ucast (drop_bit 8 h), 0x03], c))"
proof -
  have five: "5 \<le> clipped out_size c"
    using clipped_ge [OF assms(1)] by simp
  show ?thesis
    using five assms(2,3,4)
    by (simp add: l2cap_input_cases [OF assms(1)] handle_write_request_def
        check_handle_def error_response_octets error_response_no_handle_octets Let_def
        write_response_def split: prod.splits)
qed

theorem write_request_witness:
  "l2cap_input sensor_server [0x12, 0x05] 23 connection23
       = Some ([0x01, 0x12, 0x00, 0x00, 0x04], connection23)
   \<and> l2cap_input sensor_server [0x12, 0x00, 0x00, 0x01] 23 connection23
       = Some ([0x01, 0x12, 0x00, 0x00, 0x01], connection23)
   \<and> l2cap_input sensor_server [0x12, 0x08, 0x00, 0x01] 23 connection23
       = Some ([0x01, 0x12, 0x08, 0x00, 0x0A], connection23)
   \<and> l2cap_input sensor_server [0x12, 0x05, 0x00, 0x01] 23 connection23
       = Some ([0x13], connection23)
   \<and> l2cap_input sensor_server [0x12, 0x05, 0x00, 0x01, 0x02] 23 connection23
       = Some ([0x01, 0x12, 0x05, 0x00, 0x0D], connection23)
   \<and> l2cap_input sensor_server [0x12, 0x03, 0x00, 0x01] 23 connection23
       = Some ([0x01, 0x12, 0x03, 0x00, 0x03], connection23)"
  using
    write_request [OF battery_preconditions _ refl refl,
      where input = "[0x12, 0x05]" and srv = sensor_server]
    write_request [OF battery_preconditions _ refl refl,
      where input = "[0x12, 0x00, 0x00, 0x01]" and srv = sensor_server]
    write_request [OF battery_preconditions _ refl refl,
      where input = "[0x12, 0x08, 0x00, 0x01]" and srv = sensor_server]
    write_request [OF battery_preconditions _ refl refl,
      where input = "[0x12, 0x05, 0x00, 0x01]" and srv = sensor_server]
    write_request [OF battery_preconditions _ refl refl,
      where input = "[0x12, 0x05, 0x00, 0x01, 0x02]" and srv = sensor_server]
    write_request [OF battery_preconditions _ refl refl,
      where input = "[0x12, 0x03, 0x00, 0x01]" and srv = sensor_server]
  by (simp add: sensor_defs)

section \<open>Read By Group Type: the error responses\<close>

lemma foldl_collect_primary_services_none:
  "filter (\<lambda>(h, svc). s \<le> h \<and> h \<le> e) (service_ranges (cps_index st) svcs) = [] \<Longrightarrow>
   cps_output (foldl (collect_primary_services_each s e) st svcs) = cps_output st"
proof (induction svcs arbitrary: st)
  case Nil
  then show ?case by simp
next
  case (Cons svc svcs)
  from Cons.prems have out: "\<not> (s \<le> cps_index st \<and> cps_index st \<le> e)"
    and rest: "filter (\<lambda>(h, svc). s \<le> h \<and> h \<le> e)
        (service_ranges (cps_index st + of_nat (length (attributes svc))) svcs) = []"
    by (auto split: if_splits)
  have step: "collect_primary_services_each s e st svc
      = st\<lparr> cps_index := cps_index st + of_nat (length (attributes svc)) \<rparr>"
    using out by (auto simp add: collect_primary_services_each_def)
  show ?case
    using Cons.IH [of "st\<lparr> cps_index := cps_index st + of_nat (length (attributes svc)) \<rparr>"] rest
    by (simp add: step)
qed

text \<open>
  C9. A Read By Group Type Request (0x10) whose handle range passed the check: a PDU of
  21 octets, or a requested type other than the 16 bit UUID 0x2800 of a primary service, is
  answered with unsupported_group_type (and the starting handle); a request for 0x2800
  with no service whose first handle lies in the range is answered with
  attribute_not_found.
\<close>

theorem read_by_group_type_errors:
  assumes "l2cap_preconditions input out_size c" and "input ! 0 = 0x10"
    and "check_size_and_handle_range 7 21 srv input (clipped out_size c) = Inr (s, e)"
  shows "(length input = 21 \<or> read_handle (drop 5 input) \<noteq> 0x2800 \<longrightarrow>
            l2cap_input srv input out_size c =
              Some ([0x01, 0x10, ucast (s AND 0xff), ucast (drop_bit 8 s), 0x10], c))
       \<and> (length input \<noteq> 21 \<and> read_handle (drop 5 input) = 0x2800
              \<and> services_in_range srv s e = [] \<longrightarrow>
            l2cap_input srv input out_size c =
              Some ([0x01, 0x10, ucast (s AND 0xff), ucast (drop_bit 8 s), 0x0A], c))"
proof -
  have five: "5 \<le> clipped out_size c"
    using clipped_ge [OF assms(1)] by simp
  have none: "services_in_range srv s e = [] \<Longrightarrow>
      cps_output (foldl (collect_primary_services_each s e)
         \<lparr> cps_output = [], cps_room = clipped out_size c - 2, cps_index = 1,
           cps_first = True, cps_is_128bit_uuid = True, cps_attribute_data_size = 0 \<rparr>
         (services srv)) = []"
    using foldl_collect_primary_services_none [of s e
        "\<lparr> cps_output = [], cps_room = clipped out_size c - 2, cps_index = 1,
           cps_first = True, cps_is_128bit_uuid = True, cps_attribute_data_size = 0 \<rparr>"
        "services srv"]
    by (simp add: services_in_range_def)
  show ?thesis
    using five assms(2,3) none
    by (auto simp add: l2cap_input_cases [OF assms(1)] handle_read_by_group_type_request_def
        error_response_octets primary_service_def Let_def)
qed

theorem read_by_group_type_errors_witness:
  "l2cap_input battery_server
       [0x10, 0x01, 0x00, 0xFF, 0xFF, 0x00, 0x28, 0, 0, 0, 0, 0, 0, 0, 0, 0, 0, 0, 0, 0, 0]
       23 connection23 = Some ([0x01, 0x10, 0x01, 0x00, 0x10], connection23)
   \<and> l2cap_input battery_server [0x10, 0x01, 0x00, 0xFF, 0xFF, 0x01, 0x28] 23 connection23
       = Some ([0x01, 0x10, 0x01, 0x00, 0x10], connection23)
   \<and> l2cap_input battery_server [0x10, 0x02, 0x00, 0x03, 0x00, 0x00, 0x28] 23 connection23
       = Some ([0x01, 0x10, 0x02, 0x00, 0x0A], connection23)"
proof -
  have ok: "check_size_and_handle_range 7 21 battery_server
        [0x10, 0x01, 0x00, 0xFF, 0xFF, 0x00, 0x28, 0, 0, 0, 0, 0, 0, 0, 0, 0, 0, 0, 0, 0, 0]
        (clipped 23 connection23) = Inr (0x0001, 0xFFFF)"
    "check_size_and_handle_range 7 21 battery_server [0x10, 0x01, 0x00, 0xFF, 0xFF, 0x01, 0x28]
        (clipped 23 connection23) = Inr (0x0001, 0xFFFF)"
    "check_size_and_handle_range 7 21 battery_server [0x10, 0x02, 0x00, 0x03, 0x00, 0x00, 0x28]
        (clipped 23 connection23) = Inr (0x0002, 0x0003)"
    by code_simp+
  have none: "services_in_range battery_server 0x0002 0x0003 = []"
    by code_simp
  show ?thesis
    using read_by_group_type_errors [OF battery_preconditions _ ok(1)]
      read_by_group_type_errors [OF battery_preconditions _ ok(2)]
      read_by_group_type_errors [OF battery_preconditions _ ok(3)] none
    by (simp add: read_handle_def read_16bit_def)
qed

section \<open>Find By Type Value: the handle pairs\<close>

lemma length_handle_pair: "length (handle_pair p) = 4"
  by (simp add: handle_pair_def write_handle_def write_16bit_def split: prod.splits)

lemma foldl_services_by_group:
  "foldl (services_by_group_each s e collect_find_by_type_groups_call flt) (index, it, found) svcs
     = (index', it', found') \<Longrightarrow>
   fbt_room it' = fbt_room it
   \<and> fbt_current it' = fbt_current it
        @ concat (map handle_pair (take ((fbt_room it - length (fbt_current it)) div 4)
                    (matching_services s e flt (service_ranges index svcs))))
   \<and> found' = (found \<or> (matching_services s e flt (service_ranges index svcs) \<noteq> []
                  \<and> 4 \<le> fbt_room it - length (fbt_current it)))"
proof (induction svcs arbitrary: index it found)
  case Nil
  then show ?case by (simp add: matching_services_def)
next
  case (Cons svc svcs)
  let ?n = "of_nat (length (attributes svc)) :: u16"
  let ?match = "s \<le> index \<and> index \<le> e \<and> flt index (characteristic_declaration_attribute svc)"
  let ?room = "fbt_room it - length (fbt_current it)"
  show ?case
  proof (cases "?match \<and> 4 \<le> ?room")
    case True
    let ?it1 = "it\<lparr> fbt_current := fbt_current it @ handle_pair (index, svc) \<rparr>"
    have step: "services_by_group_each s e collect_find_by_type_groups_call flt (index, it, found) svc
        = (index + ?n, ?it1, True)"
      using True
      by (simp add: services_by_group_each_def collect_find_by_type_groups_call_def handle_pair_def)
    have m: "matching_services s e flt (service_ranges index (svc # svcs))
        = (index, svc) # matching_services s e flt (service_ranges (index + ?n) svcs)"
      using True by (simp add: matching_services_def)
    have k: "(fbt_room ?it1 - length (fbt_current ?it1)) div 4 = ?room div 4 - 1"
      using True by (simp add: length_handle_pair)
    have k0: "0 < ?room div 4"
      using True by (simp add: div_greater_zero_iff)
    from Cons.prems
    have "foldl (services_by_group_each s e collect_find_by_type_groups_call flt)
            (index + ?n, ?it1, True) svcs = (index', it', found')"
      by (simp add: step)
    note ih = Cons.IH [OF this, unfolded k]
    show ?thesis
      using ih k0 True by (simp add: m take_Cons' del: service_ranges.simps)
  next
    case False
    have step: "services_by_group_each s e collect_find_by_type_groups_call flt (index, it, found) svc
        = (index + ?n, it, found)"
      using False
      by (auto simp add: services_by_group_each_def collect_find_by_type_groups_call_def)
    from Cons.prems
    have "foldl (services_by_group_each s e collect_find_by_type_groups_call flt)
            (index + ?n, it, found) svcs = (index', it', found')"
      by (simp add: step)
    from Cons.IH [OF this] show ?thesis
      using False
      by (cases "?match") (auto simp add: matching_services_def)
  qed
qed


lemma unat_u8_of_nat: "unat (of_nat n :: u8) = n mod 256"
  by (simp add: unat_of_nat)

text \<open>
  C10. A Find By Type Value Request whose range passed the check and whose type is 0x2800:
  the services that match are those whose first handle lies in the range and whose
  attribute compares equal to the value of the request. The iterator appends the pair of
  4 octets of a matching service while 4 octets remain behind the opcode, so the pairs of
  the first \<open>(out_size - 1) div 4\<close> matching services; the matching services after
  these are left out without an error. When at least one pair was appended the response
  is 0x07 followed by the pairs (as many octets of them as the octet \<^verbatim>\<open>size()\<close> counts);
  when none was, it is attribute_not_found.
\<close>

theorem find_by_type_value_pairs:
  assumes "l2cap_preconditions input out_size c" and "input ! 0 = 0x06"
    and "check_size_and_handle_range 9 23 srv input (clipped out_size c) = Inr (s, e)"
    and "read_handle (drop 5 input) = 0x2800"
    and "matching = matching_services s e (value_filter (drop 7 input))
                      (service_ranges 1 (services srv))"
    and "appended = take ((clipped out_size c - 1) div 4) matching"
    and "pairs = concat (map handle_pair appended)"
  shows "all_services_by_group srv s e collect_find_by_type_groups_call
           (value_filter (drop 7 input))
           \<lparr> fbt_room = clipped out_size c - 1, fbt_current = [] \<rparr>
          = (appended \<noteq> [], \<lparr> fbt_room = clipped out_size c - 1, fbt_current = pairs \<rparr>)
       \<and> length pairs = 4 * length appended
       \<and> length pairs \<le> clipped out_size c - 1
       \<and> (appended \<noteq> [] \<longrightarrow>
            l2cap_input srv input out_size c =
              Some (0x07 # take (length pairs mod 256) pairs, c))
       \<and> (appended = [] \<longrightarrow>
            l2cap_input srv input out_size c =
              Some ([0x01, 0x06, ucast (s AND 0xff), ucast (drop_bit 8 s), 0x0A], c))"
proof -
  let ?room = "clipped out_size c - 1"
  let ?it = "\<lparr> fbt_room = ?room, fbt_current = [] \<rparr>"
  have room: "22 \<le> ?room" and five: "5 \<le> clipped out_size c"
    using clipped_ge [OF assms(1)] by simp_all
  obtain index' it' found' where
    f: "foldl (services_by_group_each s e collect_find_by_type_groups_call
          (value_filter (drop 7 input))) (1, ?it, False) (services srv) = (index', it', found')"
    by (metis prod_cases3)
  from foldl_services_by_group [OF f]
  have it': "it' = \<lparr> fbt_room = ?room, fbt_current = pairs \<rparr>"
    and found': "found' = (matching \<noteq> [])"
    using room by (simp_all add: assms(5,6,7))
  have ne: "(appended \<noteq> []) = (matching \<noteq> [])"
    using room by (cases matching) (simp_all add: assms(6) take_Cons')
  have all: "all_services_by_group srv s e collect_find_by_type_groups_call
           (value_filter (drop 7 input)) ?it = (appended \<noteq> [], \<lparr> fbt_room = ?room, fbt_current = pairs \<rparr>)"
    using f by (simp add: all_services_by_group_def it' found' ne)
  have len: "length pairs = 4 * length appended"
    unfolding assms(7) by (induction appended) (simp_all add: length_handle_pair)
  have "length appended \<le> ?room div 4"
    by (simp add: assms(6))
  then have fits: "length pairs \<le> ?room"
    using len by simp
  show ?thesis
    using five assms(2,3,4) len fits all
    by (simp add: l2cap_input_cases [OF assms(1)] handle_find_by_type_value_request_def
        primary_service_def error_response_octets find_by_type_value_response_def fbt_size_def
        unat_u8_of_nat)
qed

theorem find_by_type_value_pairs_witness:
  "l2cap_input six_services_server [0x06, 0x01, 0x00, 0xFF, 0xFF, 0x00, 0x28, 0x0F, 0x18] 23
       connection23
     = Some ([0x07, 1, 0, 3, 0, 4, 0, 6, 0, 7, 0, 9, 0, 10, 0, 12, 0, 13, 0, 15, 0], connection23)
   \<and> length (matching_services 0x0001 0xFFFF (value_filter [0x0F, 0x18])
               (service_ranges 1 (services six_services_server))) = 6
   \<and> l2cap_input six_services_server [0x06, 0x01, 0x00, 0xFF, 0xFF, 0x00, 0x28, 0x0A, 0x18] 23
       connection23
     = Some ([0x01, 0x06, 0x01, 0x00, 0x0A], connection23)"
proof -
  let ?m = "\<lambda>v. matching_services 0x0001 0xFFFF (value_filter v)
               (service_ranges 1 (services six_services_server))"
  have ok: "check_size_and_handle_range 9 23 six_services_server
        [0x06, 0x01, 0x00, 0xFF, 0xFF, 0x00, 0x28, 0x0F, 0x18] (clipped 23 connection23)
        = Inr (0x0001, 0xFFFF)"
    "check_size_and_handle_range 9 23 six_services_server
        [0x06, 0x01, 0x00, 0xFF, 0xFF, 0x00, 0x28, 0x0A, 0x18] (clipped 23 connection23)
        = Inr (0x0001, 0xFFFF)"
    by code_simp+
  have six: "length (?m [0x0F, 0x18]) = 6"
    by code_simp
  have cl: "clipped 23 connection23 = 23"
    by code_simp
  have five: "length (take 5 (?m [0x0F, 0x18])) = 5"
    by code_simp
  have pairs: "concat (map handle_pair (take 5 (?m [0x0F, 0x18])))
      = [1, 0, 3, 0, 4, 0, 6, 0, 7, 0, 9, 0, 10, 0, 12, 0, 13, 0, 15, 0]"
    by code_simp
  have none: "length (?m [0x0A, 0x18]) = 0"
    by code_simp
  from five have ne: "take 5 (?m [0x0F, 0x18]) \<noteq> []"
    by auto
  show ?thesis
    using find_by_type_value_pairs [OF battery_preconditions _ ok(1) _ refl refl refl]
      find_by_type_value_pairs [OF battery_preconditions _ ok(2) _ refl refl refl]
      six ne none
    by (simp add: read_handle_def read_16bit_def pairs cl)
qed

section \<open>Read By Type: the tuples of a response\<close>

lemma data_room_le: "data_room room \<le> 253"
  by (simp add: data_room_def)

lemma unat_u8_small: "n < 256 \<Longrightarrow> unat (of_nat n :: u8) = n"
  by (simp add: unat_of_nat)

lemma collect_attributes_call_first:
  assumes "ca_first it" and "ca_current it = []"
    and "access attr (args_read (data_room (ca_room it)) 0) h = (rc, v)"
    and "length v \<le> data_room (ca_room it)"
  shows "collect_attributes_call it h attr =
           Some (if 2 \<le> ca_room it \<and> accepted (rc, v)
                 then it\<lparr> ca_size := of_nat (length v + 2), ca_first := False,
                          ca_current := write_handle h @ v \<rparr>
                 else it)"
proof -
  have small: "length v \<le> 253"
    using assms(4) data_room_le [of "ca_room it"] by simp
  then have u: "unat (of_nat (length v + 2) :: u8) = length v + 2"
    "unat (of_nat (length v) :: u8) = length v"
    using unat_u8_small [of "length v + 2"] unat_u8_small [of "length v"] by linarith+
  show ?thesis
    using assms(1,2,3) small u
    by (simp add: collect_attributes_call_def header_size_def maximum_pdu_size_def accepted_def
        data_room_def [symmetric] Let_def)
qed

lemma collect_attributes_call_next:
  assumes "\<not> ca_first it"
    and "access attr (args_read (data_room (ca_room it - length (ca_current it))) 0) h = (rc, v)"
    and "length v \<le> data_room (ca_room it - length (ca_current it))"
  shows "collect_attributes_call it h attr =
           Some (if 2 \<le> ca_room it - length (ca_current it) \<and> accepted (rc, v)
                    \<and> length v + 2 = unat (ca_size it)
                 then it\<lparr> ca_current := ca_current it @ write_handle h @ v \<rparr>
                 else it)"
proof -
  have small: "length v \<le> 253"
    using assms(3) data_room_le [of "ca_room it - length (ca_current it)"] by simp
  then have u: "unat (of_nat (length v) :: u8) = length v"
    by (simp_all add: unat_u8_small)
  show ?thesis
    using assms(1,2) small u
    by (simp add: collect_attributes_call_def header_size_def maximum_pdu_size_def accepted_def
        data_room_def [symmetric] Let_def)
qed

lemma u16_less_succ: "(s :: u16) + 1 \<noteq> 0 \<Longrightarrow> (h < s + 1) = (h \<le> s)"
  by (metis add.commute less_Suc_eq_le unatSuc word_le_nat_alt word_less_nat_alt)

lemma u16_le_succ: "(s :: u16) + 1 \<noteq> 0 \<Longrightarrow> s0 \<le> s \<Longrightarrow> s0 \<le> s + 1"
  by (simp add: word_le_nat_alt u16_succ)

lemma attribute_at_in_database:
  "s \<noteq> 0 \<Longrightarrow> unat s \<le> number_of_attributes srv \<Longrightarrow>
   attribute_at srv (unat s - 1) \<in> set (all_attributes_list srv)"
proof -
  assume "s \<noteq> 0" and "unat s \<le> number_of_attributes srv"
  then have "unat s - 1 < length (all_attributes_list srv)"
    using unat_gt_0 [of s] by (simp add: number_of_attributes_def)
  then show ?thesis
    by (simp add: attribute_at_def)
qed

lemma read_at_contract:
  "read_contract srv \<Longrightarrow> s \<noteq> 0 \<Longrightarrow> unat s \<le> number_of_attributes srv \<Longrightarrow>
   length (snd (read_at srv n s)) \<le> n"
  using attribute_at_in_database [of s srv]
  by (simp add: read_contract_def read_at_def)

lemma tuple_octets_snoc: "tuple_octets (ts @ [(h, v)]) = tuple_octets ts @ write_handle h @ v"
  by (simp add: tuple_octets_def)

lemma length_write_handle: "length (write_handle h) = 2"
  by (simp add: write_handle_def write_16bit_def)

lemma collect_step_first:
  assumes "read_contract srv" and "2 \<le> room"
    and "iterator_of it room []"
    and "s0 \<le> s" and "s \<le> e" and "s \<noteq> 0" and "unat s \<le> number_of_attributes srv"
    and "\<forall>h'. s0 \<le> h' \<and> h' < s \<longrightarrow> \<not> candidate srv flt room h'"
    and "flt s (attribute_at srv (unat s - 1))"
    and "collect_attributes_call it s (attribute_at srv (unat s - 1)) = Some it1"
  shows "\<exists>ts1. iterator_of it1 room ts1 \<and> collected srv s0 e flt room ts1
           \<and> (ts1 = [] \<longrightarrow> \<not> candidate srv flt room s)"
proof -
  obtain rc v where r: "read_at srv (data_room room) s = (rc, v)"
    by (cases "read_at srv (data_room room) s")
  have len: "length v \<le> data_room room"
    using read_at_contract [OF assms(1,6,7), of "data_room room"] r by simp
  have it1: "it1 = (if accepted (rc, v)
                 then it\<lparr> ca_size := of_nat (length v + 2), ca_first := False,
                          ca_current := write_handle s @ v \<rparr>
                 else it)"
    using collect_attributes_call_first [of it "attribute_at srv (unat s - 1)" s rc v]
      assms(2,3,10) r len
    by (simp add: iterator_of_def read_at_def tuple_octets_def)
  show ?thesis
  proof (cases "accepted (rc, v)")
    case True
    have fits: "length (write_handle s @ v) \<le> room"
      using len assms(2) by (simp add: length_write_handle data_room_def)
    have small: "length v \<le> 253"
      using len data_room_le [of room] by simp
    have "iterator_of it1 room [(s, v)]"
      using assms(3) True by (simp add: it1 iterator_of_def tuple_octets_def)
    moreover
    have ex: "\<exists>n. accepted (read_at srv n s) \<and> v = snd (read_at srv n s)"
      using True r by (intro exI [of _ "data_room room"]) simp
    have "collected srv s0 e flt room [(s, v)]"
      unfolding collected_def
      using fits small True r assms(4,5,7,8,9) ex
      by (auto simp add: tuple_octets_def candidate_def)
    moreover
    ultimately show ?thesis
      by blast
  next
    case False
    have "iterator_of it1 room []"
      using assms(3) False by (simp add: it1)
    moreover have "collected srv s0 e flt room []"
      by (simp add: collected_def tuple_octets_def)
    moreover have "\<not> candidate srv flt room s"
      using False r by (simp add: candidate_def)
    ultimately show ?thesis
      by blast
  qed
qed

lemma collect_step_next:
  assumes "read_contract srv"
    and "iterator_of it room ts" and "collected srv s0 e flt room ts" and "ts \<noteq> []"
    and "s0 \<le> s" and "s \<le> e" and "s \<noteq> 0" and "unat s \<le> number_of_attributes srv"
    and "flt s (attribute_at srv (unat s - 1))"
    and "collect_attributes_call it s (attribute_at srv (unat s - 1)) = Some it1"
  shows "\<exists>ts1. ts1 \<noteq> [] \<and> iterator_of it1 room ts1 \<and> collected srv s0 e flt room ts1"
proof -
  let ?n = "data_room (room - length (tuple_octets ts))"
  obtain rc v where r: "read_at srv ?n s = (rc, v)"
    by (cases "read_at srv ?n s")
  have len: "length v \<le> ?n"
    using read_at_contract [OF assms(1,7,8), of ?n] r by simp
  have it: "ca_room it = room" "ca_current it = tuple_octets ts" "\<not> ca_first it"
    "ca_size it = of_nat (length (snd (hd ts)) + 2)"
    using assms(2,4) by (simp_all add: iterator_of_def)
  have first_small: "length (snd (hd ts)) \<le> 253"
    using assms(3,4) unfolding collected_def by blast
  have size: "unat (ca_size it) = length (snd (hd ts)) + 2"
    using first_small unat_u8_small [of "length (snd (hd ts)) + 2"] by (simp add: it(4))
  have it1: "it1 = (if 2 \<le> room - length (tuple_octets ts) \<and> accepted (rc, v)
                       \<and> length v = length (snd (hd ts))
                    then it\<lparr> ca_current := tuple_octets ts @ write_handle s @ v \<rparr>
                    else it)"
    using collect_attributes_call_next [of it "attribute_at srv (unat s - 1)" s rc v]
      assms(10) r len it(1,2,3) size
    by (simp add: read_at_def)
  show ?thesis
  proof (cases "2 \<le> room - length (tuple_octets ts) \<and> accepted (rc, v)
                  \<and> length v = length (snd (hd ts))")
    case True
    have "length v + 2 \<le> room - length (tuple_octets ts)"
      using len True unfolding data_room_def by linarith
    then have fits: "length (tuple_octets ts @ write_handle s @ v) \<le> room"
      using True by (simp add: length_write_handle)
    have "iterator_of it1 room (ts @ [(s, v)])"
      using assms(2,4) True by (simp add: it1 iterator_of_def tuple_octets_snoc)
    moreover
    have ex: "\<exists>n. accepted (read_at srv n s) \<and> v = snd (read_at srv n s)"
      using True r by (intro exI [of _ ?n]) simp
    have "collected srv s0 e flt room (ts @ [(s, v)])"
      using assms(3,4,5,6,8,9) fits True ex
      unfolding collected_def tuple_octets_snoc
      by auto
    moreover
    ultimately show ?thesis
      by blast
  next
    case False
    then have "it1 = it"
      unfolding it1 by (simp only: if_False)
    then show ?thesis
      using assms(2,3,4) by blast
  qed
qed

lemma all_attributes_stop:
  "\<not> (s \<le> e \<and> unat s \<le> number_of_attributes srv) \<Longrightarrow>
   all_attributes srv s e iter flt it = Some it"
  by (subst all_attributes.simps) auto

lemma all_attributes_zero: "all_attributes srv 0 e iter flt it = None"
  by (subst all_attributes.simps) simp

lemma all_attributes_step:
  "s \<le> e \<Longrightarrow> unat s \<le> number_of_attributes srv \<Longrightarrow> s \<noteq> 0 \<Longrightarrow>
   all_attributes srv s e iter flt it =
     (case (if flt s (attribute_at srv (unat s - 1))
            then iter it s (attribute_at srv (unat s - 1)) else Some it) of
        None \<Rightarrow> None
      | Some it1 \<Rightarrow> all_attributes srv (s + 1) e iter flt it1)"
  by (subst all_attributes.simps) simp

lemma u16_less_succ_cases: "(s :: u16) + 1 \<noteq> 0 \<Longrightarrow> h < s + 1 \<Longrightarrow> h < s \<or> h = s"
  using order_le_less [of h s] by (simp add: u16_less_succ)

lemma none_before_succ:
  assumes "(s :: u16) + 1 \<noteq> 0" and "\<forall>h'. s0 \<le> h' \<and> h' < s \<longrightarrow> \<not> P h'" and "\<not> P s"
  shows "\<forall>h'. s0 \<le> h' \<and> h' < s + 1 \<longrightarrow> \<not> P h'"
  using assms(2,3) u16_less_succ_cases [OF assms(1)] by blast

lemma all_attributes_collected:
  assumes "read_contract srv" and "2 \<le> room"
  shows "all_attributes srv s e collect_attributes_call flt it = Some it' \<Longrightarrow>
         iterator_of it room ts \<Longrightarrow> collected srv s0 e flt room ts \<Longrightarrow> s0 \<le> s \<Longrightarrow> s \<noteq> 0 \<Longrightarrow>
         (ts = [] \<longrightarrow> (\<forall>h'. s0 \<le> h' \<and> h' < s \<longrightarrow> \<not> candidate srv flt room h')) \<Longrightarrow>
         \<exists>ts'. iterator_of it' room ts' \<and> collected srv s0 e flt room ts'
           \<and> (ts' = [] \<longrightarrow>
                 (\<forall>h'. s0 \<le> h' \<and> h' \<le> e \<and> unat h' \<le> number_of_attributes srv
                     \<longrightarrow> \<not> candidate srv flt room h'))"
proof (induction "65536 - unat s" arbitrary: s it ts rule: less_induct)
  case less
  show ?case
  proof (cases "s \<le> e \<and> unat s \<le> number_of_attributes srv")
    case False
    then have "it' = it"
      using less.prems(1) by (simp add: all_attributes_stop)
    moreover have "ts = [] \<longrightarrow>
        (\<forall>h'. s0 \<le> h' \<and> h' \<le> e \<and> unat h' \<le> number_of_attributes srv
            \<longrightarrow> \<not> candidate srv flt room h')"
    proof (intro impI allI)
      fix h'
      assume "ts = []" and h: "s0 \<le> h' \<and> h' \<le> e \<and> unat h' \<le> number_of_attributes srv"
      from False h have "h' < s"
        by (auto simp add: word_less_nat_alt word_le_nat_alt)
      with \<open>ts = []\<close> h less.prems(6) show "\<not> candidate srv flt room h'"
        by blast
    qed
    ultimately show ?thesis
      using less.prems(2,3) by blast
  next
    case True
    let ?attr = "attribute_at srv (unat s - 1)"
    from less.prems(1) True less.prems(5)
    obtain it1 where
      call: "(if flt s ?attr then collect_attributes_call it s ?attr else Some it) = Some it1"
      and rest: "all_attributes srv (s + 1) e collect_attributes_call flt it1 = Some it'"
      by (auto simp add: all_attributes_step split: option.splits)
    have nz: "s + 1 \<noteq> 0"
    proof
      assume "s + 1 = 0"
      with rest show False
        by (simp add: all_attributes_zero)
    qed
    have "\<exists>ts1. iterator_of it1 room ts1 \<and> collected srv s0 e flt room ts1
            \<and> (ts1 = [] \<longrightarrow> (\<forall>h'. s0 \<le> h' \<and> h' < s + 1 \<longrightarrow> \<not> candidate srv flt room h'))"
    proof (cases "flt s ?attr")
      case no: False
      then have "it1 = it"
        using call by simp
      moreover have "\<not> candidate srv flt room s"
        using no by (simp add: candidate_def)
      ultimately show ?thesis
        using less.prems(2,3,6) none_before_succ [OF nz, of s0 "candidate srv flt room"]
        by blast
    next
      case yes: True
      then have c: "collect_attributes_call it s ?attr = Some it1"
        using call by simp
      show ?thesis
      proof (cases "ts = []")
        case True
        with less.prems(6) have before: "\<forall>h'. s0 \<le> h' \<and> h' < s \<longrightarrow> \<not> candidate srv flt room h'"
          by simp
        from collect_step_first [OF assms less.prems(2) [unfolded True] less.prems(4) _
            less.prems(5) _ before yes c] \<open>s \<le> e \<and> unat s \<le> number_of_attributes srv\<close>
        obtain ts1 where "iterator_of it1 room ts1" "collected srv s0 e flt room ts1"
          "ts1 = [] \<longrightarrow> \<not> candidate srv flt room s"
          by blast
        then show ?thesis
          using none_before_succ [OF nz before] by blast
      next
        case False
        from collect_step_next [OF assms(1) less.prems(2,3) False less.prems(4) _
            less.prems(5) _ yes c] \<open>s \<le> e \<and> unat s \<le> number_of_attributes srv\<close>
        show ?thesis
          by blast
      qed
    qed
    then obtain ts1 where ts1: "iterator_of it1 room ts1" "collected srv s0 e flt room ts1"
      "ts1 = [] \<longrightarrow> (\<forall>h'. s0 \<le> h' \<and> h' < s + 1 \<longrightarrow> \<not> candidate srv flt room h')"
      by blast
    have dec: "65536 - unat (s + 1) < 65536 - unat s"
      by (rule u16_succ_less [OF nz])
    show ?thesis
      by (rule less.hyps [OF dec rest ts1(1,2) u16_le_succ [OF nz less.prems(4)] nz ts1(3)])
  qed
qed

lemma check_range_Inr:
  "check_size_and_handle_range A B srv input out_size = Inr (s, e) \<Longrightarrow>
   s \<noteq> 0 \<and> s \<le> e \<and> unat s \<le> number_of_attributes srv
   \<and> s = read_handle (drop 1 input) \<and> e = read_handle (drop 3 input)
   \<and> (length input = A \<or> length input = B)"
  by (auto simp add: check_size_and_handle_range_def Let_def split: if_splits)

lemma tuple_octets_empty: "(tuple_octets ts = []) = (ts = [])"
  by (cases ts) (auto simp add: tuple_octets_def write_handle_def write_16bit_def)

lemma handle_read_by_type_request_Some:
  "check_size_and_handle_range 7 21 srv input out_size = Inr (s, e) \<Longrightarrow>
   handle_read_by_type_request srv input out_size = Some response \<Longrightarrow>
   \<exists>it'. all_attributes srv s e collect_attributes_call
           (uuid_filter srv (drop 5 input) (length input = 21))
           \<lparr> ca_room = out_size - 2, ca_current = [], ca_size = 0, ca_first = True \<rparr> = Some it'
     \<and> response =
          (if ca_current it' \<noteq> []
           then read_by_type_response # ca_size it'
                  # take (unat (ca_size_octet it')) (ca_current it')
           else error_response (input ! 0) attribute_not_found s out_size)"
  by (auto simp add: handle_read_by_type_request_def split: option.splits if_splits)

text \<open>
  C8, as the code has it. For a Read By Type Request whose range passed the check, on a
  database whose reads keep the contract, there is a list of tuples (handle, value) such
  that: every tuple is of a handle of the range whose attribute the filter matches, its
  value is what an accepted read of that attribute returned (a success, or a value
  truncated to exactly 253 octets), and all values have the length of the first; the
  tuples fit into the room behind the two octets of the header. If the list is not empty,
  its first tuple is of the first handle of the range that is a candidate (the filter
  matches and the read into the whole room, at most 253 octets, is accepted; a matching
  attribute whose read is denied or truncated below 253 octets is passed over), its value
  has at most 253 octets, the response has the opcode 0x09 and the length octet 2 + the
  length of that value, and, when the tuples take at most 255 octets, the response is
  these two octets followed by the tuples. If the list is empty, no handle of the range
  is a candidate and the response is attribute_not_found.
\<close>

theorem read_by_type_tuples:
  assumes "l2cap_preconditions input out_size c" and "input ! 0 = 0x08"
    and "check_size_and_handle_range 7 21 srv input (clipped out_size c) = Inr (s, e)"
    and "read_contract srv"
    and "l2cap_input srv input out_size c = Some (response, c')"
    and "flt = uuid_filter srv (drop 5 input) (length input = 21)"
    and "room = clipped out_size c - 2"
  shows "\<exists>ts.
           length (tuple_octets ts) \<le> room
         \<and> (\<forall>(h, v) \<in> set ts.
               s \<le> h \<and> h \<le> e \<and> unat h \<le> number_of_attributes srv
             \<and> flt h (attribute_at srv (unat h - 1))
             \<and> length v = length (snd (hd ts))
             \<and> (\<exists>n. accepted (read_at srv n h) \<and> v = snd (read_at srv n h)))
         \<and> (ts \<noteq> [] \<longrightarrow>
               (length (snd (hd ts)) \<le> 253
                \<and> candidate srv flt room (fst (hd ts))
                \<and> snd (hd ts) = snd (read_at srv (data_room room) (fst (hd ts)))
                \<and> (\<forall>h'. s \<le> h' \<and> h' < fst (hd ts) \<longrightarrow> \<not> candidate srv flt room h'))
             \<and> (response ! 0 = 0x09
                \<and> response ! 1 = of_nat (length (snd (hd ts)) + 2)
                \<and> (length (tuple_octets ts) \<le> 255 \<longrightarrow>
                      response = 0x09 # of_nat (length (snd (hd ts)) + 2) # tuple_octets ts)))
         \<and> (ts = [] \<longrightarrow>
               response = [0x01, 0x08, ucast (s AND 0xff), ucast (drop_bit 8 s), 0x0A]
             \<and> (\<forall>h. s \<le> h \<and> h \<le> e \<and> unat h \<le> number_of_attributes srv
                    \<longrightarrow> \<not> candidate srv flt room h))"
proof -
  let ?it0 = "\<lparr> ca_room = room, ca_current = [], ca_size = 0, ca_first = True \<rparr>"
  have clip: "23 \<le> clipped out_size c"
    by (rule clipped_ge [OF assms(1)])
  then have room: "2 \<le> room"
    by (simp add: assms(7))
  note range = check_range_Inr [OF assms(3)]
  from assms(5) have h: "handle_read_by_type_request srv input (clipped out_size c) = Some response"
    using assms(2) by (auto simp add: l2cap_input_cases [OF assms(1)])
  from handle_read_by_type_request_Some [OF assms(3) h] obtain it' where
    run: "all_attributes srv s e collect_attributes_call flt ?it0 = Some it'"
    and resp: "response =
      (if ca_current it' \<noteq> []
       then read_by_type_response # ca_size it'
              # take (unat (ca_size_octet it')) (ca_current it')
       else error_response (input ! 0) attribute_not_found s (clipped out_size c))"
    unfolding assms(6,7) by blast
  have init: "iterator_of ?it0 room []" "collected srv s e flt room []"
    by (simp_all add: iterator_of_def collected_def tuple_octets_def)
  have start: "s \<noteq> 0"
    using range by blast
  have before: "[] = ([] :: (u16 \<times> u8 list) list)
      \<longrightarrow> (\<forall>h'. s \<le> h' \<and> h' < s \<longrightarrow> \<not> candidate srv flt room h')"
    by auto
  from all_attributes_collected [OF assms(4) room run init order_refl start before]
  obtain ts where it': "iterator_of it' room ts" and ts: "collected srv s e flt room ts"
    and none: "ts = [] \<longrightarrow> (\<forall>h. s \<le> h \<and> h \<le> e \<and> unat h \<le> number_of_attributes srv
                    \<longrightarrow> \<not> candidate srv flt room h)"
    by blast
  have cur: "ca_current it' = tuple_octets ts"
    using it' by (simp add: iterator_of_def)
  have err: "ts = [] \<Longrightarrow>
      response = [0x01, 0x08, ucast (s AND 0xff), ucast (drop_bit 8 s), 0x0A]"
    using clip assms(2) by (simp add: resp cur tuple_octets_empty error_response_octets)
  have ok: "response ! 0 = 0x09 \<and> response ! 1 = of_nat (length (snd (hd ts)) + 2)
      \<and> (length (tuple_octets ts) \<le> 255 \<longrightarrow>
            response = 0x09 # of_nat (length (snd (hd ts)) + 2) # tuple_octets ts)"
    if "ts \<noteq> []"
    using that it' unat_u8_small [of "length (tuple_octets ts)"]
    by (simp add: resp cur tuple_octets_empty iterator_of_def read_by_type_response_def
        ca_size_octet_def)
  have c1: "length (tuple_octets ts) \<le> room"
    using ts [unfolded collected_def] by (rule conjunct1)
  have c2: "ts \<noteq> [] \<longrightarrow>
            length (snd (hd ts)) \<le> 253
          \<and> candidate srv flt room (fst (hd ts))
          \<and> snd (hd ts) = snd (read_at srv (data_room room) (fst (hd ts)))
          \<and> (\<forall>h'. s \<le> h' \<and> h' < fst (hd ts) \<longrightarrow> \<not> candidate srv flt room h')"
    by (rule ts [unfolded collected_def, THEN conjunct2, THEN conjunct1])
  have c3: "\<forall>(h, v) \<in> set ts.
               s \<le> h \<and> h \<le> e \<and> unat h \<le> number_of_attributes srv
             \<and> flt h (attribute_at srv (unat h - 1))
             \<and> length v = length (snd (hd ts))
             \<and> (\<exists>n. accepted (read_at srv n h) \<and> v = snd (read_at srv n h))"
    by (rule ts [unfolded collected_def, THEN conjunct2, THEN conjunct2])
  have first: "ts \<noteq> [] \<longrightarrow>
               (length (snd (hd ts)) \<le> 253
                \<and> candidate srv flt room (fst (hd ts))
                \<and> snd (hd ts) = snd (read_at srv (data_room room) (fst (hd ts)))
                \<and> (\<forall>h'. s \<le> h' \<and> h' < fst (hd ts) \<longrightarrow> \<not> candidate srv flt room h'))
             \<and> (response ! 0 = 0x09
                \<and> response ! 1 = of_nat (length (snd (hd ts)) + 2)
                \<and> (length (tuple_octets ts) \<le> 255 \<longrightarrow>
                      response = 0x09 # of_nat (length (snd (hd ts)) + 2) # tuple_octets ts))"
  proof (rule impI)
    assume ne: "ts \<noteq> []"
    show "(length (snd (hd ts)) \<le> 253
                \<and> candidate srv flt room (fst (hd ts))
                \<and> snd (hd ts) = snd (read_at srv (data_room room) (fst (hd ts)))
                \<and> (\<forall>h'. s \<le> h' \<and> h' < fst (hd ts) \<longrightarrow> \<not> candidate srv flt room h'))
             \<and> (response ! 0 = 0x09
                \<and> response ! 1 = of_nat (length (snd (hd ts)) + 2)
                \<and> (length (tuple_octets ts) \<le> 255 \<longrightarrow>
                      response = 0x09 # of_nat (length (snd (hd ts)) + 2) # tuple_octets ts))"
      by (rule conjI [OF c2 [THEN mp, OF ne] ok [OF ne]])
  qed
  have no_tuple: "ts = [] \<longrightarrow>
               response = [0x01, 0x08, ucast (s AND 0xff), ucast (drop_bit 8 s), 0x0A]
             \<and> (\<forall>h. s \<le> h \<and> h \<le> e \<and> unat h \<le> number_of_attributes srv
                    \<longrightarrow> \<not> candidate srv flt room h)"
  proof (rule impI)
    assume e: "ts = []"
    show "response = [0x01, 0x08, ucast (s AND 0xff), ucast (drop_bit 8 s), 0x0A]
             \<and> (\<forall>h. s \<le> h \<and> h \<le> e \<and> unat h \<le> number_of_attributes srv
                    \<longrightarrow> \<not> candidate srv flt room h)"
      by (rule conjI [OF err [OF e] none [THEN mp, OF e]])
  qed
  show ?thesis
    by (rule exI [of _ ts]) (rule conjI [OF c1 conjI [OF c3 conjI [OF first no_tuple]]])
qed

lemma sensor_read_contract: "read_contract sensor_server"
  by (simp add: read_contract_def sensor_defs)

theorem read_by_type_tuples_witness:
  "\<exists>ts. ts \<noteq> [] \<and> length (tuple_octets ts) \<le> 21 \<and> length (snd (hd ts)) \<le> 253
      \<and> candidate sensor_server (uuid_filter sensor_server [0x19, 0x2A] False) 21 (fst (hd ts))
      \<and> [0x09, 0x03, 0x05, 0x00, 0x55] = 0x09 # of_nat (length (snd (hd ts)) + 2) # tuple_octets ts"
proof -
  have ok: "check_size_and_handle_range 7 21 sensor_server
       [0x08, 0x01, 0x00, 0xFF, 0xFF, 0x19, 0x2A] (clipped 23 connection23) = Inr (0x0001, 0xFFFF)"
    by code_simp
  have resp: "l2cap_input sensor_server [0x08, 0x01, 0x00, 0xFF, 0xFF, 0x19, 0x2A] 23 connection23
       = Some ([0x09, 0x03, 0x05, 0x00, 0x55], connection23)"
    by code_simp
  have cl: "clipped 23 connection23 - 2 = 21"
    by code_simp
  from read_by_type_tuples [OF battery_preconditions _ ok sensor_read_contract resp refl refl]
  obtain ts where ts: "length (tuple_octets ts) \<le> 21"
    "ts \<noteq> [] \<longrightarrow>
       length (snd (hd ts)) \<le> 253
     \<and> candidate sensor_server (uuid_filter sensor_server [0x19, 0x2A] False) 21 (fst (hd ts))
     \<and> (length (tuple_octets ts) \<le> 255 \<longrightarrow>
           [0x09, 0x03, 0x05, 0x00, 0x55]
             = 0x09 # of_nat (length (snd (hd ts)) + 2) # tuple_octets ts)"
    "ts = [] \<longrightarrow> [0x09, 0x03, 0x05, 0x00, 0x55 :: u8] = [0x01, 0x08, 0x01, 0x00, 0x0A]"
    unfolding cl by auto
  from ts(3) have "ts \<noteq> []"
    by auto
  with ts(1,2) show ?thesis
    by (intro exI [of _ ts]) auto
qed

text \<open>
  The first attribute that matches need not determine the length octet: with 23 octets of
  output, the value of 30 octets at handle 3 is the first that matches 0x2A19, its read in
  the room of the tuple is truncated to 19 octets, and the response holds the tuple of
  handle 5 alone, with the length octet 3.
\<close>

theorem read_by_type_first_attribute_skipped:
  "\<not> uuid_filter sensor_server [0x19, 0x2A] False 1 (attribute_at sensor_server 0)
   \<and> \<not> uuid_filter sensor_server [0x19, 0x2A] False 2 (attribute_at sensor_server 1)
   \<and> uuid_filter sensor_server [0x19, 0x2A] False 3 (attribute_at sensor_server 2)
   \<and> read_at sensor_server 19 3 = (rc_read_truncated, replicate 19 0xAA)
   \<and> l2cap_input sensor_server [0x08, 0x01, 0x00, 0xFF, 0xFF, 0x19, 0x2A] 23 connection23
       = Some ([0x09, 0x03, 0x05, 0x00, 0x55], connection23)"
  by code_simp

text \<open>
  Beyond 255 octets of tuples the octet that \<^verbatim>\<open>collect_attributes::size()\<close> returns wraps:
  three values of 100 octets are collected with 512 octets of output, the length octet is
  102, and the response is cut to 52 octets.
\<close>

lemma read_by_type_size_octet_wraps:
  "map_option (\<lambda>(response, c). (length response, response ! 1))
     (l2cap_input wide_server [0x08, 0x01, 0x00, 0xFF, 0xFF, 0x19, 0x2A] 512 connection512)
   = Some (52, 102)"
  by code_simp

section \<open>The size of every response\<close>

lemma length_error_response: "5 \<le> out_size \<Longrightarrow> length (error_response op code h out_size) = 5"
  by (simp add: error_response_def)

lemma length_error_response_no_handle:
  "5 \<le> out_size \<Longrightarrow> length (error_response_no_handle op code out_size) = 5"
  by (simp add: error_response_no_handle_def length_error_response)

lemma check_range_Inl_length:
  "5 \<le> out_size \<Longrightarrow> check_size_and_handle_range A B srv input out_size = Inl r \<Longrightarrow>
   length r = 5"
  by (auto simp add: check_size_and_handle_range_def Let_def length_error_response
      length_error_response_no_handle split: if_splits)

lemma check_handle_Inl_length:
  "5 \<le> out_size \<Longrightarrow> check_handle srv input out_size = Inl r \<Longrightarrow> length r = 5"
  by (auto simp add: check_handle_def Let_def length_error_response split: if_splits)

lemma check_handle_Inr:
  "check_handle srv input out_size = Inr h \<Longrightarrow> h \<noteq> 0 \<and> unat h \<le> number_of_attributes srv"
  by (auto simp add: check_handle_def Let_def split: if_splits)

lemma check_size_and_handle_Inl_length:
  "5 \<le> out_size \<Longrightarrow> check_size_and_handle A B srv input out_size = Inl r \<Longrightarrow> length r = 5"
  by (auto simp add: check_size_and_handle_def length_error_response_no_handle
      check_handle_Inl_length split: if_splits)

lemma check_size_and_handle_Inr:
  "check_size_and_handle A B srv input out_size = Inr h \<Longrightarrow>
   h \<noteq> 0 \<and> unat h \<le> number_of_attributes srv"
  by (auto simp add: check_size_and_handle_def check_handle_Inr split: if_splits)

lemma u16_succ_nonzero: "unat (s :: u16) < 65535 \<Longrightarrow> s + 1 \<noteq> 0"
proof
  assume "unat s < 65535" and "s + 1 = 0"
  then have "s = - 1"
    by (simp add: eq_neg_iff_add_eq_0)
  then have "unat s = 65535"
    by (simp add: unsigned_minus_1_eq_mask mask_eq_exp_minus_1)
  with \<open>unat s < 65535\<close> show False
    by simp
qed

lemma length_write_128bit_uuid: "write_128bit_uuid a = Some u \<Longrightarrow> length u = 16"
  by (auto simp add: write_128bit_uuid_def split: if_splits prod.splits)

lemma length_write_16bit_uuid: "length (write_16bit_uuid v) = 2"
  by (simp add: write_16bit_uuid_def write_16bit_def)

lemma collect_handle_uuid_tuples_total:
  assumes "number_of_attributes srv < 65535" and "uuid128_layout srv"
  shows "start \<noteq> 0 \<Longrightarrow>
         \<exists>rest. collect_handle_uuid_tuples srv start end_handle only_16_bit room out
                  = Some (out @ rest)
           \<and> length rest \<le> room"
proof (induction "65536 - unat start" arbitrary: start room out rule: less_induct)
  case less
  let ?size = "if only_16_bit then 2 + 2 else 2 + 16 :: nat"
  let ?attr = "attribute_at srv (unat start - 1)"
  show ?case
  proof (cases "start \<le> end_handle \<and> unat start \<le> number_of_attributes srv \<and> ?size \<le> room")
    case False
    then have "collect_handle_uuid_tuples srv start end_handle only_16_bit room out = Some out"
      by (subst collect_handle_uuid_tuples.simps) auto
    then show ?thesis
      by simp
  next
    case True
    then have small: "unat start < 65535"
      using assms(1) by simp
    have nz: "start + 1 \<noteq> 0"
      by (rule u16_succ_nonzero [OF small])
    have dec: "65536 - unat (start + 1) < 65536 - unat start"
      by (rule u16_succ_less [OF nz])
    note ih = less.hyps [OF dec nz]
    show ?thesis
    proof (cases "only_16_bit = (uuid ?attr \<noteq> internal_128bit_uuid)")
      case skip: False
      have "collect_handle_uuid_tuples srv start end_handle only_16_bit room out
          = collect_handle_uuid_tuples srv (start + 1) end_handle only_16_bit room out"
        using True skip less.prems by (subst collect_handle_uuid_tuples.simps) auto
      then show ?thesis
        using ih [of room out] by simp
    next
      case take: True
      have step: "\<exists>rest. collect_handle_uuid_tuples srv start end_handle only_16_bit room out
                  = Some (out @ rest) \<and> length rest \<le> room"
        if call: "collect_handle_uuid_tuples srv start end_handle only_16_bit room out
            = collect_handle_uuid_tuples srv (start + 1) end_handle only_16_bit (room - ?size)
                (out @ tuple)"
          and len: "length tuple = ?size"
        for tuple
      proof -
        from ih [of "room - ?size" "out @ tuple"] obtain rest where
          rest: "collect_handle_uuid_tuples srv (start + 1) end_handle only_16_bit (room - ?size)
                (out @ tuple) = Some ((out @ tuple) @ rest)"
          and fits: "length rest \<le> room - ?size"
          by blast
        have "length (tuple @ rest) \<le> room"
          using fits len True by auto
        then show ?thesis
          using call rest by (intro exI [of _ "tuple @ rest"]) simp
      qed
      show ?thesis
      proof (cases "uuid ?attr \<noteq> internal_128bit_uuid")
        case short: True
        let ?tuple = "write_handle start @ write_16bit_uuid (uuid ?attr)"
        have "collect_handle_uuid_tuples srv start end_handle only_16_bit room out
            = collect_handle_uuid_tuples srv (start + 1) end_handle only_16_bit (room - ?size)
                (out @ ?tuple)"
          using True take short less.prems by (subst collect_handle_uuid_tuples.simps) auto
        moreover have "length ?tuple = ?size"
          using take short by (simp add: length_write_handle length_write_16bit_uuid)
        ultimately show ?thesis
          by (rule step)
      next
        case long: False
        have pos: "0 < unat start"
          using less.prems by (simp add: unat_gt_0)
        from True have "unat start \<le> number_of_attributes srv"
          by blast
        with pos have index: "unat start - 1 < number_of_attributes srv"
          by linarith
        from assms(2) index long
        have two: "1 \<le> unat start - 1"
          and w: "write_128bit_uuid (attribute_at srv (unat start - 1 - 1)) \<noteq> None"
          unfolding uuid128_layout_def by blast+
        then obtain u where u: "write_128bit_uuid (attribute_at srv (unat start - 2)) = Some u"
          by (auto simp add: numeral_2_eq_2)
        let ?tuple = "write_handle start @ u"
        have "collect_handle_uuid_tuples srv start end_handle only_16_bit room out
            = collect_handle_uuid_tuples srv (start + 1) end_handle only_16_bit (room - ?size)
                (out @ ?tuple)"
          using True take long less.prems two u
          by (subst collect_handle_uuid_tuples.simps) auto
        moreover have "length ?tuple = ?size"
          using take long length_write_128bit_uuid [OF u] by (simp add: length_write_handle)
        ultimately show ?thesis
          by (rule step)
      qed
    qed
  qed
qed

text \<open>
  With 23 octets of output, the tuple of the starting handle is always part of the result:
  the format is that of its attribute, and the first tuple fits.
\<close>

lemma collect_handle_uuid_tuples_start:
  assumes "number_of_attributes srv < 65535" and "uuid128_layout srv"
    and "start \<noteq> 0" and "start \<le> end_handle" and "unat start \<le> number_of_attributes srv"
    and "18 \<le> room"
    and "only_16_bit = (uuid (attribute_at srv (unat start - 1)) \<noteq> internal_128bit_uuid)"
  shows "\<exists>rest. collect_handle_uuid_tuples srv start end_handle only_16_bit room []
                  = Some (write_handle start @ rest)
           \<and> length rest + 2 \<le> room"
proof -
  let ?size = "if only_16_bit then 2 + 2 else 2 + 16 :: nat"
  let ?attr = "attribute_at srv (unat start - 1)"
  have small: "unat start < 65535"
    using assms(1,5) by simp
  have nz: "start + 1 \<noteq> 0"
    by (rule u16_succ_nonzero [OF small])
  have rest: "\<exists>rest. collect_handle_uuid_tuples srv start end_handle only_16_bit room []
                  = Some (write_handle start @ rest) \<and> length rest + 2 \<le> room"
    if call: "collect_handle_uuid_tuples srv start end_handle only_16_bit room []
            = collect_handle_uuid_tuples srv (start + 1) end_handle only_16_bit (room - ?size)
                (write_handle start @ u)"
      and len: "2 + length u = ?size"
    for u
  proof -
    from collect_handle_uuid_tuples_total [OF assms(1,2) nz, of end_handle only_16_bit
        "room - ?size" "write_handle start @ u"]
    obtain rest where
      "collect_handle_uuid_tuples srv (start + 1) end_handle only_16_bit (room - ?size)
         (write_handle start @ u) = Some ((write_handle start @ u) @ rest)"
      and "length rest \<le> room - ?size"
      by blast
    moreover from this(2) len assms(6) have "length (u @ rest) + 2 \<le> room"
      by (cases only_16_bit) simp_all
    ultimately show ?thesis
      using call by (intro exI [of _ "u @ rest"]) simp
  qed
  show ?thesis
  proof (cases "uuid ?attr \<noteq> internal_128bit_uuid")
    case short: True
    have "collect_handle_uuid_tuples srv start end_handle only_16_bit room []
        = collect_handle_uuid_tuples srv (start + 1) end_handle only_16_bit (room - ?size)
            (write_handle start @ write_16bit_uuid (uuid ?attr))"
      using assms(3,4,5,6,7) short by (subst collect_handle_uuid_tuples.simps) auto
    moreover have "2 + length (write_16bit_uuid (uuid ?attr)) = ?size"
      using assms(7) short by (simp add: length_write_16bit_uuid)
    ultimately show ?thesis
      by (rule rest)
  next
    case long: False
    have pos: "0 < unat start"
      using assms(3) by (simp add: unat_gt_0)
    with assms(5) have index: "unat start - 1 < number_of_attributes srv"
      by linarith
    from assms(2) index long
    have two: "1 \<le> unat start - 1"
      and w: "write_128bit_uuid (attribute_at srv (unat start - 1 - 1)) \<noteq> None"
      unfolding uuid128_layout_def by blast+
    then obtain u where u: "write_128bit_uuid (attribute_at srv (unat start - 2)) = Some u"
      by (auto simp add: numeral_2_eq_2)
    have "collect_handle_uuid_tuples srv start end_handle only_16_bit room []
        = collect_handle_uuid_tuples srv (start + 1) end_handle only_16_bit (room - ?size)
            (write_handle start @ u)"
      using assms(3,4,5,6,7) long two u by (subst collect_handle_uuid_tuples.simps) auto
    moreover have "2 + length u = ?size"
      using assms(7) long length_write_128bit_uuid [OF u] by simp
    ultimately show ?thesis
      by (rule rest)
  qed
qed

lemma find_information_response_size:
  assumes "23 \<le> out_size" and "number_of_attributes srv < 65535" and "uuid128_layout srv"
  shows "\<exists>r. handle_find_information_request srv input out_size = Some r
           \<and> 1 \<le> length r \<and> length r \<le> out_size"
proof (cases "check_size_and_handle_range 5 5 srv input out_size")
  case (Inl r)
  with check_range_Inl_length [OF _ Inl] assms(1) show ?thesis
    by (simp add: handle_find_information_request_def)
next
  case (Inr p)
  obtain s e where p: "p = (s, e)"
    by (cases p)
  from check_range_Inr [OF Inr [unfolded p]] have "s \<noteq> 0"
    by blast
  from collect_handle_uuid_tuples_total [OF assms(2,3) this, of e
      "uuid (attribute_at srv (unat s - 1)) \<noteq> internal_128bit_uuid" "out_size - 2" "[]"]
  obtain tuples where "collect_handle_uuid_tuples srv s e
      (uuid (attribute_at srv (unat s - 1)) \<noteq> internal_128bit_uuid) (out_size - 2) [] = Some tuples"
    and "length tuples \<le> out_size - 2"
    by auto
  then show ?thesis
    using assms(1)
    by (cases "uuid (attribute_at srv (unat s - 1)) = internal_128bit_uuid")
       (simp_all add: handle_find_information_request_def Inr p Let_def numeral_2_eq_2)
qed

text \<open>
  A Find Information Request whose range passed the check is never answered with an error:
  the response is 0x05, the format of the attribute at the starting handle, and tuples of
  which the first is that of the starting handle. The attribute that fixes the format lies
  in the range, so the range always holds an attribute of the chosen format.
\<close>

lemma find_information_starts_with_starting_handle:
  assumes "23 \<le> out_size" and "number_of_attributes srv < 65535" and "uuid128_layout srv"
    and "check_size_and_handle_range 5 5 srv input out_size = Inr (s, e)"
  shows "\<exists>rest. handle_find_information_request srv input out_size =
           Some (0x05 # (if uuid (attribute_at srv (unat s - 1)) \<noteq> internal_128bit_uuid
                         then 0x01 else 0x02) # write_handle s @ rest)"
proof -
  note range = check_range_Inr [OF assms(4)]
  have room: "18 \<le> out_size - 2"
    using assms(1) by simp
  from range have "s \<noteq> 0" "s \<le> e" "unat s \<le> number_of_attributes srv"
    by blast+
  from collect_handle_uuid_tuples_start [OF assms(2,3) this room refl]
  obtain rest where "collect_handle_uuid_tuples srv s e
      (uuid (attribute_at srv (unat s - 1)) \<noteq> internal_128bit_uuid) (out_size - 2) []
        = Some (write_handle s @ rest)"
    by blast
  then show ?thesis
    using assms(1)
    by (cases "uuid (attribute_at srv (unat s - 1)) = internal_128bit_uuid")
       (simp_all add: handle_find_information_request_def assms(4) Let_def numeral_2_eq_2
         find_information_response_def short_16bit_def long_128bit_def)
qed

lemma length_handle_pairs: "length (concat (map handle_pair xs)) = 4 * length xs"
  by (induction xs) (simp_all add: length_handle_pair)

lemma find_by_type_value_response_size:
  assumes "23 \<le> out_size"
  shows "1 \<le> length (handle_find_by_type_value_request srv input out_size)
       \<and> length (handle_find_by_type_value_request srv input out_size) \<le> out_size"
proof (cases "check_size_and_handle_range 9 23 srv input out_size")
  case (Inl r)
  with check_range_Inl_length [OF _ Inl] assms show ?thesis
    by (simp add: handle_find_by_type_value_request_def)
next
  case (Inr p)
  obtain s e where p: "p = (s, e)"
    by (cases p)
  let ?it = "\<lparr> fbt_room = out_size - 1, fbt_current = [] \<rparr>"
  obtain index' it' found' where
    f: "foldl (services_by_group_each s e collect_find_by_type_groups_call
          (value_filter (drop 7 input))) (1, ?it, False) (services srv) = (index', it', found')"
    by (metis prod_cases3)
  let ?m = "matching_services s e (value_filter (drop 7 input)) (service_ranges 1 (services srv))"
  from foldl_services_by_group [OF f]
  have cur: "fbt_current it' = concat (map handle_pair (take ((out_size - 1) div 4) ?m))"
    by simp
  have "length (take ((out_size - 1) div 4) ?m) \<le> (out_size - 1) div 4"
    by simp
  then have fits: "length (fbt_current it') \<le> out_size - 1"
    unfolding cur length_handle_pairs by linarith
  have all: "all_services_by_group srv s e collect_find_by_type_groups_call
           (value_filter (drop 7 input)) ?it = (found', it')"
    using f by (simp add: all_services_by_group_def)
  show ?thesis
    using assms fits all
    by (auto simp add: handle_find_by_type_value_request_def Inr p length_error_response min_def)
qed

lemma read_response_size:
  assumes "23 \<le> out_size" and "read_contract srv"
  shows "1 \<le> length (handle_read_request srv input out_size)
       \<and> length (handle_read_request srv input out_size) \<le> out_size"
proof (cases "check_size_and_handle 3 3 srv input out_size")
  case (Inl r)
  with check_size_and_handle_Inl_length [OF _ Inl] assms(1) show ?thesis
    by (simp add: handle_read_request_def)
next
  case (Inr h)
  from check_size_and_handle_Inr [OF Inr]
  have "attribute_at srv (unat h - 1) \<in> set (all_attributes_list srv)"
    using attribute_at_in_database [of h srv] by blast
  with assms(2)
  have "length (snd (access (attribute_at srv (unat h - 1)) (args_read (out_size - 1) 0) h))
      \<le> out_size - 1"
    unfolding read_contract_def by blast
  then show ?thesis
    using assms(1)
    by (auto simp add: handle_read_request_def Inr length_error_response split: prod.splits)
qed

lemma read_blob_response_size:
  assumes "23 \<le> out_size" and "read_contract srv"
  shows "1 \<le> length (handle_read_blob_request srv input out_size)
       \<and> length (handle_read_blob_request srv input out_size) \<le> out_size"
proof (cases "check_size_and_handle 5 5 srv input out_size")
  case (Inl r)
  with check_size_and_handle_Inl_length [OF _ Inl] assms(1) show ?thesis
    by (simp add: handle_read_blob_request_def)
next
  case (Inr h)
  from check_size_and_handle_Inr [OF Inr]
  have "attribute_at srv (unat h - 1) \<in> set (all_attributes_list srv)"
    using attribute_at_in_database [of h srv] by blast
  with assms(2)
  have "length (snd (access (attribute_at srv (unat h - 1))
            (args_read (out_size - 1) (unat (read_16bit (drop 3 input)))) h)) \<le> out_size - 1"
    unfolding read_contract_def by blast
  then show ?thesis
    using assms(1)
    by (auto simp add: handle_read_blob_request_def Inr length_error_response Let_def
        split: prod.splits)
qed

lemma write_response_size:
  assumes "23 \<le> out_size"
  shows "1 \<le> length (handle_write_request srv input out_size)
       \<and> length (handle_write_request srv input out_size) \<le> out_size"
proof (cases "check_handle srv input out_size")
  case (Inl r)
  with check_handle_Inl_length [OF _ Inl] assms show ?thesis
    by (simp add: handle_write_request_def length_error_response_no_handle)
next
  case (Inr h)
  then show ?thesis
    using assms
    by (auto simp add: handle_write_request_def length_error_response
        length_error_response_no_handle split: prod.splits)
qed

lemma collect_attributes_call_total:
  assumes "\<forall>n. length (snd (access attr (args_read n 0) h)) \<le> n"
  shows "\<exists>it1. collect_attributes_call it h attr = Some it1"
proof -
  let ?n = "min (ca_room it - length (ca_current it)) (maximum_pdu_size + header_size)
              - header_size"
  from assms have "length (snd (access attr (args_read ?n 0) h)) \<le> ?n"
    by blast
  moreover have "?n \<le> 253"
    by (simp add: maximum_pdu_size_def header_size_def)
  ultimately have small: "length (snd (access attr (args_read ?n 0) h)) \<le> 253"
    by linarith
  obtain rc buffer where r: "access attr (args_read ?n 0) h = (rc, buffer)"
    by (cases "access attr (args_read ?n 0) h")
  show ?thesis
    using r small
    by (simp add: collect_attributes_call_def Let_def maximum_pdu_size_def header_size_def)
qed

lemma all_attributes_total:
  assumes "number_of_attributes srv < 65535" and "read_contract srv"
  shows "s \<noteq> 0 \<Longrightarrow> \<exists>it'. all_attributes srv s e collect_attributes_call flt it = Some it'"
proof (induction "65536 - unat s" arbitrary: s it rule: less_induct)
  case less
  show ?case
  proof (cases "s \<le> e \<and> unat s \<le> number_of_attributes srv")
    case False
    then show ?thesis
      by (simp add: all_attributes_stop)
  next
    case True
    then have "unat s < 65535"
      using assms(1) by simp
    then have nz: "s + 1 \<noteq> 0"
      by (rule u16_succ_nonzero)
    note ih = less.hyps [OF u16_succ_less [OF nz] nz]
    from True less.prems
    have "attribute_at srv (unat s - 1) \<in> set (all_attributes_list srv)"
      using attribute_at_in_database [of s srv] by blast
    with assms(2)
    have "\<forall>n. length (snd (access (attribute_at srv (unat s - 1)) (args_read n 0) s)) \<le> n"
      unfolding read_contract_def by blast
    from collect_attributes_call_total [OF this, of it]
    obtain it1 where "collect_attributes_call it s (attribute_at srv (unat s - 1)) = Some it1"
      by blast
    then show ?thesis
      using True less.prems ih [of it1] ih [of it]
      by (simp add: all_attributes_step)
  qed
qed

lemma read_by_type_response_size:
  assumes "23 \<le> out_size" and "number_of_attributes srv < 65535" and "read_contract srv"
  shows "\<exists>r. handle_read_by_type_request srv input out_size = Some r
           \<and> 1 \<le> length r \<and> length r \<le> out_size"
proof (cases "check_size_and_handle_range 7 21 srv input out_size")
  case (Inl r)
  with check_range_Inl_length [OF _ Inl] assms(1) show ?thesis
    by (simp add: handle_read_by_type_request_def)
next
  case (Inr p)
  obtain s e where p: "p = (s, e)"
    by (cases p)
  let ?flt = "uuid_filter srv (drop 5 input) (length input = 5 + 16)"
  let ?it0 = "\<lparr> ca_room = out_size - 2, ca_current = [], ca_size = 0, ca_first = True \<rparr>"
  from check_range_Inr [OF Inr [unfolded p]] have start: "s \<noteq> 0"
    by blast
  from all_attributes_total [OF assms(2,3) start] obtain it' where
    run: "all_attributes srv s e collect_attributes_call ?flt ?it0 = Some it'"
    by blast
  have room: "2 \<le> out_size - 2"
    using assms(1) by simp
  have init: "iterator_of ?it0 (out_size - 2) []" "collected srv s e ?flt (out_size - 2) []"
    by (simp_all add: iterator_of_def collected_def tuple_octets_def)
  have before: "[] = ([] :: (u16 \<times> u8 list) list)
      \<longrightarrow> (\<forall>h'. s \<le> h' \<and> h' < s \<longrightarrow> \<not> candidate srv ?flt (out_size - 2) h')"
    by auto
  from all_attributes_collected [OF assms(3) room run init order_refl start before]
  obtain ts where it': "iterator_of it' (out_size - 2) ts"
    and ts: "collected srv s e ?flt (out_size - 2) ts"
    by blast
  have "length (ca_current it') \<le> out_size - 2"
    using it' ts [unfolded collected_def, THEN conjunct1] by (simp add: iterator_of_def)
  then show ?thesis
    using assms(1) run Inr
    by (auto simp add: handle_read_by_type_request_def p length_error_response min_def)
qed

lemma foldl_collect_primary_services_size:
  assumes "\<forall>svc \<in> set svcs. \<forall>room index f.
             length (read_primary_service_response svc room index f) \<le> room"
  shows "length (cps_output st) \<le> cps_room st \<Longrightarrow>
         length (cps_output (foldl (collect_primary_services_each s e) st svcs)) \<le> cps_room st
         \<and> cps_room (foldl (collect_primary_services_each s e) st svcs) = cps_room st"
  using assms
proof (induction svcs arbitrary: st)
  case Nil
  then show ?case by simp
next
  case (Cons svc svcs)
  let ?st1 = "collect_primary_services_each s e st svc"
  have c: "\<And>room index f. length (read_primary_service_response svc room index f) \<le> room"
    using Cons.prems(2) by simp
  have room: "cps_room ?st1 = cps_room st"
    by (simp add: collect_primary_services_each_def Let_def)
  have "length (cps_output ?st1) \<le> cps_room st"
    using Cons.prems(1)
      c [of "cps_room st - length (cps_output st)" "cps_index st" "is_128bit svc"]
      c [of "cps_room st - length (cps_output st)" "cps_index st" "cps_is_128bit_uuid st"]
    by (auto simp add: collect_primary_services_each_def Let_def)
  then have "length (cps_output ?st1) \<le> cps_room ?st1"
    by (simp add: room)
  from Cons.IH [OF this] Cons.prems(2) show ?case
    by (simp add: room)
qed

lemma read_by_group_type_response_size:
  assumes "23 \<le> out_size" and "primary_service_contract srv"
  shows "1 \<le> length (handle_read_by_group_type_request srv input out_size)
       \<and> length (handle_read_by_group_type_request srv input out_size) \<le> out_size"
proof (cases "check_size_and_handle_range 7 21 srv input out_size")
  case (Inl r)
  with check_range_Inl_length [OF _ Inl] assms(1) show ?thesis
    by (simp add: handle_read_by_group_type_request_def)
next
  case (Inr p)
  obtain s e where p: "p = (s, e)"
    by (cases p)
  let ?st0 = "\<lparr> cps_output = [], cps_room = out_size - 2, cps_index = 1, cps_first = True,
                cps_is_128bit_uuid = True, cps_attribute_data_size = 0 \<rparr>"
  from foldl_collect_primary_services_size [of "services srv" ?st0 s e] assms(2)
  have "length (cps_output (foldl (collect_primary_services_each s e) ?st0 (services srv)))
      \<le> out_size - 2"
    by (simp add: primary_service_contract_def)
  then show ?thesis
    using assms(1) Inr
    by (auto simp add: handle_read_by_group_type_request_def p length_error_response Let_def)
qed

lemma exchange_mtu_response_connection:
  assumes "23 \<le> out_size"
  shows "\<exists>r c'. handle_exchange_mtu_request input out_size c = Some (r, c')
           \<and> 1 \<le> length r \<and> length r \<le> out_size
           \<and> (c' = c \<or> (length r = 3 \<and> server_mtu c' = server_mtu c
                  \<and> 23 \<le> unat (client_mtu c')))"
  using assms
  by (simp add: handle_exchange_mtu_request_def length_error_response_no_handle Let_def
      set_client_mtu_def default_att_mtu_size_def write_16bit_def)

text \<open>
  C1. Under the preconditions of the dispatcher (a PDU that is not empty, an output buffer
  of at least 23 octets, a connection whose MTUs are at least 23), on a well-formed server,
  \<^verbatim>\<open>l2cap_input\<close> returns for every input PDU: its response is no longer than the minimum
  of the given \<^verbatim>\<open>out_size\<close> and the negotiated MTU of the connection (as it was at the call,
  and as it is on return), and its length is 0 or at least 1. It is in fact never 0 here:
  with 23 octets of output even an Error Response fits.
\<close>

theorem l2cap_input_response_size:
  assumes "l2cap_preconditions input out_size c" and "server_ok srv"
  shows "\<exists>response c'. l2cap_input srv input out_size c = Some (response, c')
           \<and> length response \<le> min out_size (unat (negotiated_mtu c))
           \<and> length response \<le> min out_size (unat (negotiated_mtu c'))
           \<and> (length response = 0 \<or> 1 \<le> length response)
           \<and> 1 \<le> length response"
proof -
  let ?os = "clipped out_size c"
  have os: "23 \<le> ?os"
    by (rule clipped_ge [OF assms(1)])
  have ok: "number_of_attributes srv < 65535" "read_contract srv"
    "primary_service_contract srv" "uuid128_layout srv"
    using assms(2) by (simp_all add: server_ok_def)
  have mtu: "23 \<le> unat (server_mtu c)" "23 \<le> out_size"
    using assms(1) by (simp_all add: l2cap_preconditions_def)
  have same: "\<exists>response c'. l2cap_input srv input out_size c = Some (response, c')
           \<and> length response \<le> min out_size (unat (negotiated_mtu c))
           \<and> length response \<le> min out_size (unat (negotiated_mtu c'))
           \<and> (length response = 0 \<or> 1 \<le> length response)
           \<and> 1 \<le> length response"
    if "l2cap_input srv input out_size c = Some (r, c)" and "1 \<le> length r" and "length r \<le> ?os"
    for r
    using that by (auto simp add: clipped_def)
  consider (op_mtu) "input ! 0 = 0x02" | (op_info) "input ! 0 = 0x04" | (op_value) "input ! 0 = 0x06"
    | (op_type) "input ! 0 = 0x08" | (op_read) "input ! 0 = 0x0A" | (op_blob) "input ! 0 = 0x0C"
    | (op_group) "input ! 0 = 0x10" | (op_write) "input ! 0 = 0x12"
    | (op_other) "input ! 0 \<notin> {0x02, 0x04, 0x06, 0x08, 0x0A, 0x0C, 0x10, 0x12}"
    by auto
  then show ?thesis
  proof cases
    case op_mtu
    from exchange_mtu_response_connection [OF os, of input c] obtain r c' where
      r: "handle_exchange_mtu_request input ?os c = Some (r, c')"
      "1 \<le> length r" "length r \<le> ?os"
      "c' = c \<or> (length r = 3 \<and> server_mtu c' = server_mtu c \<and> 23 \<le> unat (client_mtu c'))"
      by blast
    have "l2cap_input srv input out_size c = Some (r, c')"
      using op_mtu r(1) by (simp add: l2cap_input_cases [OF assms(1)])
    moreover have "length r \<le> min out_size (unat (negotiated_mtu c))"
      using r(3) by (simp add: clipped_def)
    moreover have "length r \<le> min out_size (unat (negotiated_mtu c'))"
      using r(3,4) \<open>23 \<le> unat (server_mtu c)\<close> \<open>23 \<le> out_size\<close>
      by (auto simp add: clipped_def unat_negotiated_mtu)
    ultimately show ?thesis
      using r(2) by blast
  next
    case op_info
    from find_information_response_size [OF os ok(1,4), of input] obtain r where
      r: "handle_find_information_request srv input ?os = Some r" "1 \<le> length r" "length r \<le> ?os"
      by blast
    have "l2cap_input srv input out_size c = Some (r, c)"
      using op_info r(1) by (simp add: l2cap_input_cases [OF assms(1)])
    then show ?thesis
      by (rule same [OF _ r(2,3)])
  next
    case op_value
    note size = find_by_type_value_response_size [OF os, of srv input]
    have "l2cap_input srv input out_size c = Some (handle_find_by_type_value_request srv input ?os, c)"
      using op_value by (simp add: l2cap_input_cases [OF assms(1)])
    then show ?thesis
      by (rule same [OF _ size [THEN conjunct1] size [THEN conjunct2]])
  next
    case op_type
    from read_by_type_response_size [OF os ok(1,2), of input] obtain r where
      r: "handle_read_by_type_request srv input ?os = Some r" "1 \<le> length r" "length r \<le> ?os"
      by blast
    have "l2cap_input srv input out_size c = Some (r, c)"
      using op_type r(1) by (simp add: l2cap_input_cases [OF assms(1)])
    then show ?thesis
      by (rule same [OF _ r(2,3)])
  next
    case op_read
    note size = read_response_size [OF os ok(2), of input]
    have "l2cap_input srv input out_size c = Some (handle_read_request srv input ?os, c)"
      using op_read by (simp add: l2cap_input_cases [OF assms(1)])
    then show ?thesis
      by (rule same [OF _ size [THEN conjunct1] size [THEN conjunct2]])
  next
    case op_blob
    note size = read_blob_response_size [OF os ok(2), of input]
    have "l2cap_input srv input out_size c = Some (handle_read_blob_request srv input ?os, c)"
      using op_blob by (simp add: l2cap_input_cases [OF assms(1)])
    then show ?thesis
      by (rule same [OF _ size [THEN conjunct1] size [THEN conjunct2]])
  next
    case op_group
    note size = read_by_group_type_response_size [OF os ok(3), of input]
    have "l2cap_input srv input out_size c = Some (handle_read_by_group_type_request srv input ?os, c)"
      using op_group by (simp add: l2cap_input_cases [OF assms(1)])
    then show ?thesis
      by (rule same [OF _ size [THEN conjunct1] size [THEN conjunct2]])
  next
    case op_write
    note size = write_response_size [OF os, of srv input]
    have "l2cap_input srv input out_size c = Some (handle_write_request srv input ?os, c)"
      using op_write by (simp add: l2cap_input_cases [OF assms(1)])
    then show ?thesis
      by (rule same [OF _ size [THEN conjunct1] size [THEN conjunct2]])
  next
    case op_other
    have five: "length (error_response_no_handle (input ! 0) request_not_supported ?os) = 5"
      using os by (simp add: length_error_response_no_handle)
    have "l2cap_input srv input out_size c
        = Some (error_response_no_handle (input ! 0) request_not_supported ?os, c)"
      using op_other by (simp add: l2cap_input_cases [OF assms(1)])
    moreover have "1 \<le> length (error_response_no_handle (input ! 0) request_not_supported ?os)"
      "length (error_response_no_handle (input ! 0) request_not_supported ?os) \<le> ?os"
      using five os by linarith+
    ultimately show ?thesis
      by (rule same)
  qed
qed

lemma battery_server_ok: "server_ok battery_server"
  by (simp add: server_ok_def read_contract_def primary_service_contract_def uuid128_layout_def
      battery_server_def battery_service_def battery_declaration_def number_of_attributes_def
      all_attributes_list_def attribute_at_def read_value_def primary_service_response_def
      write_handle_def write_16bit_def internal_128bit_uuid_def primary_service_def
      characteristic_def less_Suc_eq numeral_3_eq_3)

theorem l2cap_input_response_size_witness:
  "\<exists>response c'. l2cap_input battery_server [0x0A, 0x03, 0x00] 23 connection23
          = Some (response, c')
      \<and> length response \<le> min 23 (unat (negotiated_mtu connection23))
      \<and> length response \<le> min 23 (unat (negotiated_mtu c'))
      \<and> (length response = 0 \<or> 1 \<le> length response)
      \<and> 1 \<le> length response"
  by (rule l2cap_input_response_size [OF battery_preconditions battery_server_ok]) simp

end
